theory Spec2Isabelle
  imports Main "HOL-Library.Sublist"
begin

section \<open>Data model of bot.py\<close>

text \<open>
  A Python \<open>str\<close> is a sequence of Unicode code points, so it is modelled as a list of
  natural numbers; \<open>str\<close> turns an ASCII literal into that representation.  A naive
  \<open>datetime\<close> is the number of microseconds since 1970-01-01T00:00:00; the ISO text
  that the history file stores for it is taken as already parsed.
\<close>

type_synonym pystr = "nat list"

definition str :: "string \<Rightarrow> pystr" where
  "str s = map of_char s"

type_synonym datetime = int

datatype error =
    KeyError pystr
  | IndexError
  | APIError pystr
  | HTTPException

text \<open>
  A post is a dict; a key that may be absent is an option (\<open>None\<close>: the key is absent).
  The generators always set \<open>content\<close>; \<open>date\<close> is added by \<open>daily_post\<close>.
\<close>

record post =
  content :: pystr
  mode :: "pystr option"
  topic :: "pystr option"
  wonder_type :: "pystr option"
  summary :: "pystr option"
  had_callback :: "bool option"
  answer :: "pystr option"
  date :: "datetime option"

text \<open>
  The history aggregate, with the four keys of \<open>load_history\<close>'s default and the
  \<open>temp_answer\<close> key that only \<open>get_puzzle\<close> adds.
\<close>

record history =
  posts :: "post list"
  used_wonders :: "pystr list"
  used_topics :: "pystr list"
  pending_puzzle_answer :: "pystr option"
  temp_answer :: "pystr option"

text \<open>Python truthiness of \<open>d.get(key)\<close> for a string value: present and not empty.\<close>

fun truthy :: "pystr option \<Rightarrow> bool" where
  "truthy None = False"
| "truthy (Some s) = (s \<noteq> [])"

text \<open>The slice \<open>xs[-n:]\<close> for a positive constant \<open>n\<close>: the last \<open>n\<close> elements.\<close>

definition last_n :: "nat \<Rightarrow> 'a list \<Rightarrow> 'a list" where
  "last_n n xs = drop (length xs - n) xs"

section \<open>Content configuration\<close>

definition WONDER_TYPES :: "pystr list" where
  "WONDER_TYPES = map str
    [''something that seems impossible but is mathematically proven true'',
     ''a simple question with a surprisingly complex or unsolved answer'',
     ''a pattern that appears unexpectedly across unrelated domains'',
     ''a problem that stumped mathematicians or physicists for decades (or centuries)'',
     ''something proven to exist but never directly observed'',
     ''two seemingly unrelated things that turn out to be mathematically equivalent'',
     ''a result that contradicts everyday intuition about how the world works'',
     ''a physical phenomenon that has no complete explanation yet'',
     ''an everyday object or experience that hides deep mathematical structure'',
     ''a limit or bound that nature seems to respect for mysterious reasons'']"

definition TOPICS :: "pystr list" where
  "TOPICS = map str
    [''quantum mechanics'', ''number theory'', ''thermodynamics'', ''topology'',
     ''special or general relativity'', ''probability paradoxes'', ''chaos theory'',
     ''electromagnetism'', ''group theory and symmetry'', ''fluid dynamics'',
     ''prime numbers'', ''cosmology and the early universe'', ''game theory'',
     ''optics and light'', ''combinatorics'', ''statistical mechanics'',
     ''black holes'', ''wave phenomena'', ''graph theory'', ''orbital mechanics'']"

text \<open>0 = Monday, ..., 6 = Sunday.\<close>

definition MODE_SCHEDULE :: "int \<rightharpoonup> pystr" where
  "MODE_SCHEDULE = map_of
    [(0, str ''fact''), (1, str ''fact''), (2, str ''what_if''), (3, str ''fact''),
     (4, str ''puzzle''), (5, str ''fact''), (6, str ''connections'')]"

section \<open>The world outside the program\<close>

text \<open>
  What the program sends out is logged; what it reads from outside comes from oracles
  indexed by the number of the call: the clock, the random number generator, the model
  API and the Discord gateway.  \<open>history_file\<close> is the JSON file (\<open>None\<close>: it does not
  exist).  The fixed text of a prompt, title or footer is a constructor, its variable
  parts are the arguments.
\<close>

datatype model = Haiku | Sonnet

type_synonym context_line = "datetime \<times> pystr \<times> pystr \<times> pystr"

datatype prompt =
    SummaryPrompt pystr
  | FactPrompt "context_line list" pystr pystr "(int \<times> pystr) option"
  | WhatIfPrompt "context_line list" pystr
  | PuzzlePrompt "context_line list" pystr
  | ConnectionsPrompt "(pystr \<times> pystr \<times> pystr) list"
  | CustomFactPrompt pystr

datatype title =
    DailyWonder pystr
  | WhatIfTitle
  | PuzzleTitle pystr
  | WeeklyConnections
  | DailyPostTitle
  | FactTitle pystr
  | PuzzleAnswerTitle
  | LastPosts nat
  | WeeklySchedule

datatype footer = PoweredByClaude | RequestedBy pystr | RequestedByAnswer pystr | NoFooter

record embed =
  title :: title
  description :: pystr
  color :: nat
  timestamp :: "datetime option"
  footer :: footer

datatype message = Embed embed | Text pystr

datatype printed = CouldNotFindChannel | Posted pystr pystr | ErrorPosting error

record world =
  history_file :: "history option"
  channel :: bool
  clock :: "nat \<Rightarrow> datetime"
  clock_reads :: nat
  randbelow :: "nat \<Rightarrow> nat \<Rightarrow> nat"
  random_below_03 :: "nat \<Rightarrow> bool"
  rng_calls :: nat
  claude :: "nat \<Rightarrow> error + pystr"
  requests :: "(model \<times> nat \<times> prompt) list"
  send_error :: "nat \<Rightarrow> error option"
  sent :: "message list"
  stdout :: "printed list"

text \<open>
  A procedure that may raise: it returns the exception or its value, and the world as
  it left it.  \<open>bind\<close> is sequencing: an exception of the first part skips the second.
\<close>

type_synonym 'a io = "world \<Rightarrow> (error + 'a) \<times> world"

definition return :: "'a \<Rightarrow> 'a io" where
  "return a w = (Inr a, w)"

definition raise :: "error \<Rightarrow> 'a io" where
  "raise e w = (Inl e, w)"

definition bind :: "'a io \<Rightarrow> ('a \<Rightarrow> 'b io) \<Rightarrow> 'b io" where
  "bind m f w = (case m w of (Inl e, w') \<Rightarrow> (Inl e, w') | (Inr a, w') \<Rightarrow> f a w')"

text \<open>\<open>datetime.utcnow()\<close>\<close>

definition utcnow :: "datetime io" where
  "utcnow w = (Inr (clock w (clock_reads w)), w\<lparr>clock_reads := Suc (clock_reads w)\<rparr>)"

text \<open>\<open>(now - d).days\<close>: a timedelta's days are the floor of the difference.\<close>

definition timedelta_days :: "datetime \<Rightarrow> datetime \<Rightarrow> int" where
  "timedelta_days now d = (now - d) div 86400000000"

text \<open>\<open>dt.weekday()\<close>; 1970-01-01 was a Thursday.\<close>

definition weekday :: "datetime \<Rightarrow> int" where
  "weekday dt = (dt div 86400000000 + 3) mod 7"

text \<open>
  \<open>random.choice(seq)\<close> is \<open>seq[randbelow(len(seq))]\<close> and raises IndexError on an empty
  sequence, as does an index out of range.
\<close>

definition random_choice :: "'a list \<Rightarrow> 'a io" where
  "random_choice seq w =
     (if seq = [] then (Inl IndexError, w)
      else let i = randbelow w (rng_calls w) (length seq);
               w' = w\<lparr>rng_calls := Suc (rng_calls w)\<rparr>
           in (if i < length seq then Inr (seq ! i) else Inl IndexError, w'))"

text \<open>\<open>random.random() < 0.3\<close>\<close>

definition random_lt_03 :: "bool io" where
  "random_lt_03 w = (Inr (random_below_03 w (rng_calls w)), w\<lparr>rng_calls := Suc (rng_calls w)\<rparr>)"

text \<open>\<open>claude.messages.create(...)\<close> followed by \<open>message.content[0].text\<close>\<close>

definition messages_create :: "model \<Rightarrow> nat \<Rightarrow> prompt \<Rightarrow> pystr io" where
  "messages_create m max_tokens p w =
     (claude w (length (requests w)), w\<lparr>requests := requests w @ [(m, max_tokens, p)]\<rparr>)"

text \<open>\<open>channel.send\<close> and \<open>ctx.send\<close>\<close>

definition send :: "message \<Rightarrow> unit io" where
  "send m w =
     (case send_error w (length (sent w)) of
        Some e \<Rightarrow> (Inl e, w)
      | None \<Rightarrow> (Inr (), w\<lparr>sent := sent w @ [m]\<rparr>))"

definition print :: "printed \<Rightarrow> unit io" where
  "print p w = (Inr (), w\<lparr>stdout := stdout w @ [p]\<rparr>)"

section \<open>History management\<close>

definition empty_history :: history where
  "empty_history = \<lparr>posts = [], used_wonders = [], used_topics = [],
     pending_puzzle_answer = None, temp_answer = None\<rparr>"

definition load_history :: "history io" where
  "load_history w =
     (case history_file w of Some h \<Rightarrow> (Inr h, w) | None \<Rightarrow> (Inr empty_history, w))"

definition save_history :: "history \<Rightarrow> unit io" where
  "save_history h w = (Inr (), w\<lparr>history_file := Some h\<rparr>)"

text \<open>The in-memory part of \<open>add_to_history\<close>: the dict after the three updates.\<close>

definition append_post :: "history \<Rightarrow> post \<Rightarrow> history" where
  "append_post h post_data =
     (let h1 = h\<lparr>posts := posts h @ [post_data]\<rparr>;
          h2 = (case wonder_type post_data of
                  Some wt \<Rightarrow>
                    if wt \<noteq> [] then h1\<lparr>used_wonders := last_n 5 (used_wonders h1 @ [wt])\<rparr>
                    else h1
                | None \<Rightarrow> h1)
      in case topic post_data of
           Some t \<Rightarrow>
             if t \<noteq> [] then h2\<lparr>used_topics := last_n 8 (used_topics h2 @ [t])\<rparr> else h2
         | None \<Rightarrow> h2)"

text \<open>\<open>add_to_history\<close> mutates the dict it is given and saves it; the model returns the dict.\<close>

definition add_to_history :: "history \<Rightarrow> post \<Rightarrow> history io" where
  "add_to_history h post_data =
     (let h' = append_post h post_data in bind (save_history h') (\<lambda>_. return h'))"

text \<open>\<open>d.get(key, default)\<close>\<close>

definition get_default :: "'a option \<Rightarrow> 'a \<Rightarrow> 'a" where
  "get_default v d = (case v of Some x \<Rightarrow> x | None \<Rightarrow> d)"

text \<open>
  The loop of \<open>get_callback_candidate\<close>; \<open>post["date"]\<close> raises KeyError when the key
  is absent.
\<close>

fun callback_loop :: "datetime \<Rightarrow> post list \<Rightarrow> post list \<Rightarrow> error + post list" where
  "callback_loop now [] candidates = Inr candidates"
| "callback_loop now (p # ps) candidates =
     (case date p of
        None \<Rightarrow> Inl (KeyError (str ''date''))
      | Some post_date \<Rightarrow>
          (let days_ago = timedelta_days now post_date
           in callback_loop now ps
                (if 7 \<le> days_ago \<and> days_ago \<le> 21 \<and> mode p = Some (str ''fact'')
                 then candidates @ [p] else candidates)))"

definition get_callback_candidate :: "history \<Rightarrow> post option io" where
  "get_callback_candidate h =
     (if length (posts h) < 7 then return None
      else bind utcnow (\<lambda>now.
        case callback_loop now (posts h) [] of
          Inl e \<Rightarrow> raise e
        | Inr candidates \<Rightarrow>
            if candidates \<noteq> [] then bind (random_choice candidates) (\<lambda>c. return (Some c))
            else return None))"

fun recent_loop :: "datetime \<Rightarrow> int \<Rightarrow> post list \<Rightarrow> post list \<Rightarrow> error + post list" where
  "recent_loop now days [] recent = Inr recent"
| "recent_loop now days (p # ps) recent =
     (case date p of
        None \<Rightarrow> Inl (KeyError (str ''date''))
      | Some post_date \<Rightarrow>
          recent_loop now days ps
            (if timedelta_days now post_date \<le> days then recent @ [p] else recent))"

definition get_recent_posts :: "history \<Rightarrow> int \<Rightarrow> post list io" where
  "get_recent_posts h days =
     (if posts h = [] then return []
      else bind utcnow (\<lambda>now.
        case recent_loop now days (posts h) [] of
          Inl e \<Rightarrow> raise e
        | Inr recent \<Rightarrow> return recent))"

definition pick_fresh :: "'a list \<Rightarrow> 'a list \<Rightarrow> 'a io" where
  "pick_fresh options recently_used =
     (let fresh = filter (\<lambda>o'. o' \<notin> set recently_used) options
      in if fresh \<noteq> [] then random_choice fresh else random_choice options)"

section \<open>Content generation\<close>

text \<open>\<open>str.strip()\<close> removes the Unicode whitespace at both ends.\<close>

definition isspace :: "nat \<Rightarrow> bool" where
  "isspace c \<longleftrightarrow>
     (9 \<le> c \<and> c \<le> 13) \<or> (28 \<le> c \<and> c \<le> 32) \<or> c = 133 \<or> c = 160 \<or> c = 5760 \<or>
     (8192 \<le> c \<and> c \<le> 8202) \<or> c = 8232 \<or> c = 8233 \<or> c = 8239 \<or> c = 8287 \<or> c = 12288"

definition strip :: "pystr \<Rightarrow> pystr" where
  "strip s = rev (dropWhile isspace (rev (dropWhile isspace s)))"

text \<open>\<open>s.find(sub)\<close>: the index of the leftmost occurrence.\<close>

fun find_str :: "pystr \<Rightarrow> pystr \<Rightarrow> nat option" where
  "find_str [] sub = (if sub = [] then Some 0 else None)"
| "find_str (c # cs) sub =
     (if prefix sub (c # cs) then Some 0 else map_option Suc (find_str cs sub))"

text \<open>\<open>sub in s\<close>\<close>

definition contains :: "pystr \<Rightarrow> pystr \<Rightarrow> bool" where
  "contains s sub = (find_str s sub \<noteq> None)"

text \<open>\<open>s.split(sep, 1)\<close> for a non-empty separator\<close>

definition split_1 :: "pystr \<Rightarrow> pystr \<Rightarrow> pystr list" where
  "split_1 s sep =
     (case find_str s sep of
        None \<Rightarrow> [s]
      | Some i \<Rightarrow> [take i s, drop (i + length sep) s])"

definition generate_summary :: "pystr \<Rightarrow> pystr io" where
  "generate_summary content' =
     bind (messages_create Haiku 100 (SummaryPrompt content')) (\<lambda>text'. return (strip text'))"

fun context_lines :: "post list \<Rightarrow> error + context_line list" where
  "context_lines [] = Inr []"
| "context_lines (p # ps) =
     (case date p of
        None \<Rightarrow> Inl (KeyError (str ''date''))
      | Some d \<Rightarrow>
          (case context_lines ps of
             Inl e \<Rightarrow> Inl e
           | Inr ls \<Rightarrow>
               Inr ((d, get_default (mode p) (str ''fact''), get_default (topic p) (str ''unknown''),
                     take 200 (get_default (summary p) [])) # ls)))"

text \<open>The result is the list of the lines between the two tags; the empty text is \<open>[]\<close>.\<close>

definition build_context_block :: "history \<Rightarrow> context_line list io" where
  "build_context_block h =
     bind (get_recent_posts h 14) (\<lambda>recent.
       if recent = [] then return []
       else case context_lines (last_n 10 recent) of
              Inl e \<Rightarrow> raise e
            | Inr ls \<Rightarrow> return ls)"

text \<open>The callback block of \<open>generate_fact\<close>: the candidate and what the prompt says of it.\<close>

definition callback_opportunity :: "history \<Rightarrow> (post option \<times> (int \<times> pystr) option) io" where
  "callback_opportunity h =
     bind random_lt_03 (\<lambda>lt.
       if lt then
         bind (get_callback_candidate h) (\<lambda>callback.
           case callback of
             None \<Rightarrow> return (None, None)
           | Some c \<Rightarrow>
               bind utcnow (\<lambda>now.
                 case date c of
                   None \<Rightarrow> raise (KeyError (str ''date''))
                 | Some d \<Rightarrow>
                     return (Some c, Some (timedelta_days now d, get_default (summary c) []))))
       else return (None, None))"

definition generate_fact :: "history \<Rightarrow> post io" where
  "generate_fact h =
     bind (pick_fresh TOPICS (used_topics h)) (\<lambda>topic'.
     bind (pick_fresh WONDER_TYPES (used_wonders h)) (\<lambda>wonder.
     bind (build_context_block h) (\<lambda>context.
     bind (callback_opportunity h) (\<lambda>(callback, callback_text).
     bind (messages_create Sonnet 1024 (FactPrompt context topic' wonder callback_text)) (\<lambda>content'.
     bind (generate_summary content') (\<lambda>summary'.
     return \<lparr>content = content', mode = Some (str ''fact''), topic = Some topic',
       wonder_type = Some wonder, summary = Some summary',
       had_callback = Some (callback \<noteq> None), answer = None, date = None\<rparr>))))))"

definition generate_what_if :: "history \<Rightarrow> post io" where
  "generate_what_if h =
     bind (pick_fresh TOPICS (used_topics h)) (\<lambda>topic'.
     bind (build_context_block h) (\<lambda>context.
     bind (messages_create Sonnet 1024 (WhatIfPrompt context topic')) (\<lambda>content'.
     bind (generate_summary content') (\<lambda>summary'.
     return \<lparr>content = content', mode = Some (str ''what_if''), topic = Some topic',
       wonder_type = None, summary = Some summary', had_callback = None, answer = None,
       date = None\<rparr>))))"

text \<open>
  Lines 313 to 320: the puzzle and the answer parsed out of the response; \<open>parts[1]\<close>
  raises IndexError when there is no second part.
\<close>

definition parse_puzzle :: "pystr \<Rightarrow> error + pystr \<times> pystr" where
  "parse_puzzle full_response =
     (if contains full_response (str ''ANSWER:'') then
        (case split_1 full_response (str ''ANSWER:'') of
           p0 # p1 # _ \<Rightarrow> Inr (strip p0, strip p1)
         | _ \<Rightarrow> Inl IndexError)
      else Inr (full_response, str ''(Answer coming tomorrow)''))"

definition generate_puzzle :: "history \<Rightarrow> post io" where
  "generate_puzzle h =
     bind (pick_fresh TOPICS (used_topics h)) (\<lambda>topic'.
     bind (build_context_block h) (\<lambda>context.
     bind (messages_create Sonnet 1024 (PuzzlePrompt context topic')) (\<lambda>full_response.
     bind (case parse_puzzle full_response of Inl e \<Rightarrow> raise e | Inr parsed \<Rightarrow> return parsed)
       (\<lambda>(puzzle, answer').
     bind (generate_summary puzzle) (\<lambda>summary'.
     return \<lparr>content = puzzle, mode = Some (str ''puzzle''), topic = Some topic',
       wonder_type = None, summary = Some summary', had_callback = None,
       answer = Some answer', date = None\<rparr>)))))"

definition generate_connections :: "history \<Rightarrow> post io" where
  "generate_connections h =
     bind (get_recent_posts h 7) (\<lambda>recent.
       if length recent < 3 then generate_fact h
       else
         (let summaries = map (\<lambda>p. (get_default (mode p) (str ''fact''),
                get_default (topic p) (str ''unknown''),
                take 200 (get_default (summary p) []))) recent
          in bind (messages_create Sonnet 1024 (ConnectionsPrompt summaries)) (\<lambda>content'.
             bind (generate_summary content') (\<lambda>summary'.
             return \<lparr>content = content', mode = Some (str ''connections''),
               topic = Some (str ''weekly synthesis''), wonder_type = None,
               summary = Some summary', had_callback = None, answer = None, date = None\<rparr>))))"

definition generate_content :: "pystr \<Rightarrow> history \<Rightarrow> post io" where
  "generate_content mode' h =
     (if mode' = str ''fact'' then generate_fact h
      else if mode' = str ''what_if'' then generate_what_if h
      else if mode' = str ''puzzle'' then generate_puzzle h
      else if mode' = str ''connections'' then generate_connections h
      else generate_fact h)"

section \<open>The scheduled post\<close>

text \<open>The block that \<open>daily_post\<close> puts before the content when it reveals an answer.\<close>

definition reveal :: "pystr \<Rightarrow> pystr \<Rightarrow> pystr" where
  "reveal answer_text content' =
     str ''**Yesterday'' @ [39] @ str ''s puzzle answer:**'' @ [10] @ answer_text @
     [10, 10] @ str ''---'' @ [10, 10] @ content'"

definition title_map :: "post \<Rightarrow> pystr \<rightharpoonup> title" where
  "title_map result = map_of
     [(str ''fact'', DailyWonder (get_default (topic result) (str ''Physics & Math''))),
      (str ''what_if'', WhatIfTitle),
      (str ''puzzle'', PuzzleTitle (get_default (topic result) (str ''Physics & Math''))),
      (str ''connections'', WeeklyConnections)]"

definition color_map :: "pystr \<rightharpoonup> nat" where
  "color_map = map_of
     [(str ''fact'', 0x5865F2), (str ''what_if'', 0xEB459E),
      (str ''puzzle'', 0xFEE75C), (str ''connections'', 0x57F287)]"

text \<open>The body of the \<open>try\<close> block.\<close>

definition daily_post_body :: "unit io" where
  "daily_post_body =
     bind load_history (\<lambda>h.
       let answer_text = (if truthy (pending_puzzle_answer h) then pending_puzzle_answer h else None);
           h1 = (if truthy (pending_puzzle_answer h) then h\<lparr>pending_puzzle_answer := None\<rparr> else h)
       in
     bind utcnow (\<lambda>today.
       let mode' = get_default (MODE_SCHEDULE (weekday today)) (str ''fact'') in
     bind (generate_content mode' h1) (\<lambda>result.
       let h2 = (if mode' = str ''puzzle'' \<and> truthy (answer result)
                 then h1\<lparr>pending_puzzle_answer := answer result\<rparr> else h1);
           content' = (case answer_text of
                         Some a \<Rightarrow> reveal a (content result)
                       | None \<Rightarrow> content result)
       in
     bind utcnow (\<lambda>stamp.
       let embed' = \<lparr>title = get_default (title_map result mode') DailyPostTitle,
                      description = content',
                      color = get_default (color_map mode') 0x5865F2,
                      timestamp = Some stamp,
                      footer = PoweredByClaude\<rparr>
       in
     bind (send (Embed embed')) (\<lambda>_.
     bind (print (Posted mode' (get_default (topic result) (str ''unknown'')))) (\<lambda>_.
     bind utcnow (\<lambda>d.
     bind (add_to_history h2 (result\<lparr>date := Some d\<rparr>)) (\<lambda>_. return ()))))))))"

text \<open>\<open>daily_post\<close> catches every exception of the body and prints it.\<close>

definition daily_post :: "unit io" where
  "daily_post w =
     (if \<not> channel w then print CouldNotFindChannel w
      else case daily_post_body w of
             (Inl e, w') \<Rightarrow> print (ErrorPosting e) w'
           | (Inr u, w') \<Rightarrow> (Inr u, w'))"

section \<open>Manual commands\<close>

text \<open>
  A command gets the display name of its author; an exception of a command leaves
  the handler.  \<open>show_history\<close> and \<open>show_schedule\<close> call neither the model nor
  \<open>save_history\<close> and are left out.
\<close>

definition get_fact :: "pystr \<Rightarrow> pystr option \<Rightarrow> unit io" where
  "get_fact author topic' =
     bind load_history (\<lambda>h.
     bind (if truthy topic' then
             bind (messages_create Sonnet 1024 (CustomFactPrompt (get_default topic' [])))
               (\<lambda>content'. return (content', get_default topic' []))
           else
             bind (generate_fact h)
               (\<lambda>result. return (content result, get_default (topic result) (str ''Physics & Math''))))
       (\<lambda>(content', used_topic).
     bind utcnow (\<lambda>stamp.
     send (Embed \<lparr>title = FactTitle used_topic, description = content', color = 0x5865F2,
                   timestamp = Some stamp, footer = RequestedBy author\<rparr>))))"

definition get_what_if :: "pystr \<Rightarrow> unit io" where
  "get_what_if author =
     bind load_history (\<lambda>h.
     bind (generate_what_if h) (\<lambda>result.
     bind utcnow (\<lambda>stamp.
     send (Embed \<lparr>title = WhatIfTitle, description = content result, color = 0xEB459E,
                   timestamp = Some stamp, footer = RequestedBy author\<rparr>))))"

definition get_puzzle :: "pystr \<Rightarrow> unit io" where
  "get_puzzle author =
     bind load_history (\<lambda>h.
     bind (generate_puzzle h) (\<lambda>result.
     bind utcnow (\<lambda>stamp.
       let embed' = \<lparr>title = PuzzleTitle (get_default (topic result) (str ''Math & Physics'')),
                      description = content result, color = 0xFEE75C,
                      timestamp = Some stamp, footer = RequestedByAnswer author\<rparr>;
           h' = h\<lparr>temp_answer := Some (get_default (answer result) (str ''No answer available''))\<rparr>
       in
     bind (save_history h') (\<lambda>_.
     send (Embed embed')))))"

definition get_answer :: "unit io" where
  "get_answer =
     bind load_history (\<lambda>h.
       let answer' = get_default (temp_answer h) (str ''No recent puzzle to answer!'')
       in send (Embed \<lparr>title = PuzzleAnswerTitle, description = answer', color = 0x57F287,
                        timestamp = None, footer = NoFooter\<rparr>))"

datatype invocation =
    Scheduled
  | FactCommand pystr "pystr option"
  | WhatIfCommand pystr
  | PuzzleCommand pystr
  | AnswerCommand

fun invoke :: "invocation \<Rightarrow> unit io" where
  "invoke Scheduled = daily_post"
| "invoke (FactCommand author topic') = get_fact author topic'"
| "invoke (WhatIfCommand author) = get_what_if author"
| "invoke (PuzzleCommand author) = get_puzzle author"
| "invoke AnswerCommand = get_answer"

section \<open>Notions used to state the properties\<close>

text \<open>\<open>N\<close> successive appends, each through \<open>add_to_history\<close>.\<close>

fun appends :: "history \<Rightarrow> post list \<Rightarrow> history io" where
  "appends h [] = return h"
| "appends h (p # ps) = bind (add_to_history h p) (\<lambda>h'. appends h' ps)"

text \<open>The values of a key that the posts carry: present and not empty, in order.\<close>

definition carried :: "(post \<Rightarrow> pystr option) \<Rightarrow> post list \<Rightarrow> pystr list" where
  "carried f ps = filter (\<lambda>s. s \<noteq> []) (List.map_filter f ps)"

definition carries :: "(post \<Rightarrow> pystr option) \<Rightarrow> post \<Rightarrow> bool" where
  "carries f p = truthy (f p)"

text \<open>
  The generator behaves like Python's: \<open>randbelow(n)\<close> is below \<open>n\<close>.  \<open>with_draw i w\<close>
  is the world \<open>w\<close> in which the generator draws \<open>i\<close>.
\<close>

definition rng_ok :: "world \<Rightarrow> bool" where
  "rng_ok w \<longleftrightarrow> (\<forall>k n. 0 < n \<longrightarrow> randbelow w k n < n)"

definition with_draw :: "nat \<Rightarrow> world \<Rightarrow> world" where
  "with_draw i w = w\<lparr>randbelow := (\<lambda>k n. i)\<rparr>"

text \<open>Every post has its \<open>date\<close> key.\<close>

definition dated :: "post list \<Rightarrow> bool" where
  "dated ps = list_all (\<lambda>p. date p \<noteq> None) ps"

text \<open>The whole-day age of a post at \<open>now\<close> is at most \<open>days\<close>.\<close>

definition age_at_most :: "datetime \<Rightarrow> int \<Rightarrow> post \<Rightarrow> bool" where
  "age_at_most now days p =
     (case date p of Some d \<Rightarrow> timedelta_days now d \<le> days | None \<Rightarrow> False)"

text \<open>A post of mode fact whose whole-day age at \<open>now\<close> is in the band from 7 to 21.\<close>

definition callback_band :: "datetime \<Rightarrow> post \<Rightarrow> bool" where
  "callback_band now p =
     (case date p of
        Some d \<Rightarrow>
          7 \<le> timedelta_days now d \<and> timedelta_days now d \<le> 21 \<and> mode p = Some (str ''fact'')
      | None \<Rightarrow> False)"

text \<open>
  Relations between the world before and after a procedure.  \<open>steady_rel\<close>: the oracles
  are the same; \<open>silent_rel\<close>: nothing was saved, sent or printed; \<open>offline_rel\<close>: the
  model was not called.
\<close>

definition steady_rel :: "world \<Rightarrow> world \<Rightarrow> bool" where
  "steady_rel w w' \<longleftrightarrow> clock w' = clock w \<and> randbelow w' = randbelow w \<and>
     random_below_03 w' = random_below_03 w \<and> claude w' = claude w \<and>
     send_error w' = send_error w \<and> channel w' = channel w"

definition silent_rel :: "world \<Rightarrow> world \<Rightarrow> bool" where
  "silent_rel w w' \<longleftrightarrow> history_file w' = history_file w \<and> sent w' = sent w \<and> stdout w' = stdout w"

definition offline_rel :: "world \<Rightarrow> world \<Rightarrow> bool" where
  "offline_rel w w' \<longleftrightarrow> requests w' = requests w"

definition preserves :: "(world \<Rightarrow> world \<Rightarrow> bool) \<Rightarrow> 'a io \<Rightarrow> bool" where
  "preserves R m \<longleftrightarrow> (\<forall>w. R w (snd (m w)))"

definition frame_rel :: "(world \<Rightarrow> world \<Rightarrow> bool) \<Rightarrow> bool" where
  "frame_rel R \<longleftrightarrow> (\<forall>w. R w w) \<and> (\<forall>a b c. R a b \<longrightarrow> R b c \<longrightarrow> R a c)"

text \<open>The relation holds across the clock and the generator, and across the model too.\<close>

definition sel_frame :: "(world \<Rightarrow> world \<Rightarrow> bool) \<Rightarrow> bool" where
  "sel_frame R \<longleftrightarrow> frame_rel R \<and> preserves R utcnow \<and> preserves R random_lt_03 \<and>
     (\<forall>xs :: post list. preserves R (random_choice xs)) \<and>
     (\<forall>xs :: pystr list. preserves R (random_choice xs))"

definition gen_frame :: "(world \<Rightarrow> world \<Rightarrow> bool) \<Rightarrow> bool" where
  "gen_frame R \<longleftrightarrow> sel_frame R \<and> (\<forall>m n p. preserves R (messages_create m n p))"

text \<open>
  A call of the model made between \<open>w\<close> and \<open>w'\<close> raised.  A procedure fails fast when
  such a call makes it raise; it is abort-safe when after such a call nothing has been
  saved, sent or printed.
\<close>

definition api_failed :: "world \<Rightarrow> world \<Rightarrow> bool" where
  "api_failed w w' \<longleftrightarrow>
     (\<exists>k. length (requests w) \<le> k \<and> k < length (requests w') \<and> isl (claude w k))"

definition fails_fast :: "'a io \<Rightarrow> bool" where
  "fails_fast m \<longleftrightarrow>
     (\<forall>w. claude (snd (m w)) = claude w \<and> length (requests w) \<le> length (requests (snd (m w))) \<and>
          (api_failed w (snd (m w)) \<longrightarrow> isl (fst (m w))))"

definition abort_safe :: "'a io \<Rightarrow> bool" where
  "abort_safe m \<longleftrightarrow>
     (\<forall>w. api_failed w (snd (m w)) \<longrightarrow> silent_rel w (snd (m w)))"

text \<open>Every call of the model returns; with \<open>rng_ok\<close>, the world is healthy.\<close>

definition api_up :: "world \<Rightarrow> bool" where
  "api_up w \<longleftrightarrow> (\<forall>k. \<not> isl (claude w k))"

definition healthy :: "world \<Rightarrow> bool" where
  "healthy w \<longleftrightarrow> rng_ok w \<and> api_up w"

text \<open>In a healthy world the procedure returns a value that satisfies \<open>Q\<close>.\<close>

definition succeeds :: "'a io \<Rightarrow> ('a \<Rightarrow> bool) \<Rightarrow> bool" where
  "succeeds m Q \<longleftrightarrow>
     (\<forall>w. healthy w \<longrightarrow> (\<exists>a. fst (m w) = Inr a \<and> Q a) \<and> healthy (snd (m w)))"

text \<open>What \<open>load_history\<close> returns in a world, and what \<open>daily_post\<close> makes of it.\<close>

definition loaded :: "world \<Rightarrow> history" where
  "loaded w = (case history_file w of Some h \<Rightarrow> h | None \<Rightarrow> empty_history)"

definition consumed :: "history \<Rightarrow> history" where
  "consumed h = (if truthy (pending_puzzle_answer h) then h\<lparr>pending_puzzle_answer := None\<rparr> else h)"

definition scheduled_mode :: "world \<Rightarrow> pystr" where
  "scheduled_mode w = get_default (MODE_SCHEDULE (weekday (clock w (clock_reads w)))) (str ''fact'')"

text \<open>
  The world in which the pending slot of the stored history holds \<open>x\<close>.  A procedure is
  blind to the file when the file it starts with changes nothing but the file it ends with.
\<close>

definition with_pending :: "pystr option \<Rightarrow> world \<Rightarrow> world" where
  "with_pending x w = w\<lparr>history_file := Some ((loaded w)\<lparr>pending_puzzle_answer := x\<rparr>)\<rparr>"

definition file_blind :: "'a io \<Rightarrow> bool" where
  "file_blind m \<longleftrightarrow>
     (\<forall>w f. m (w\<lparr>history_file := f\<rparr>) = (fst (m w), (snd (m w))\<lparr>history_file := f\<rparr>))"

text \<open>The embeds that \<open>get_puzzle\<close> and \<open>get_answer\<close> send.\<close>

definition puzzle_embed :: "pystr \<Rightarrow> post \<Rightarrow> datetime \<Rightarrow> message" where
  "puzzle_embed author result stamp =
     Embed \<lparr>title = PuzzleTitle (get_default (topic result) (str ''Math & Physics'')),
       description = content result, color = 0xFEE75C, timestamp = Some stamp,
       footer = RequestedByAnswer author\<rparr>"

definition answer_embed :: "history \<Rightarrow> message" where
  "answer_embed h =
     Embed \<lparr>title = PuzzleAnswerTitle,
       description = get_default (temp_answer h) (str ''No recent puzzle to answer!''),
       color = 0x57F287, timestamp = None, footer = NoFooter\<rparr>"

text \<open>
  For the scheduled post: what the embed shows for a loaded history \<open>h\<close> and a generated
  post, and what the pending slot holds afterwards.
\<close>

definition rendered :: "history \<Rightarrow> post \<Rightarrow> pystr" where
  "rendered h result =
     (case pending_puzzle_answer h of
        Some a \<Rightarrow> if a \<noteq> [] then reveal a (content result) else content result
      | None \<Rightarrow> content result)"

definition stored_pending :: "pystr \<Rightarrow> history \<Rightarrow> post \<Rightarrow> pystr option" where
  "stored_pending mode' h result =
     (if mode' = str ''puzzle'' \<and> truthy (answer result) then answer result
      else if truthy (pending_puzzle_answer h) then None
      else pending_puzzle_answer h)"


section \<open>Concrete inputs\<close>

text \<open>
  The clock of \<open>world0\<close> stands at 2025-11-04 16:00 UTC, a Tuesday; its generator always
  draws 0 and its model always answers.
\<close>

definition world0 :: world where
  "world0 = \<lparr>history_file = None, channel = True, clock = (\<lambda>k. 1762272000000000),
     clock_reads = 0, randbelow = (\<lambda>k n. 0), random_below_03 = (\<lambda>k. False), rng_calls = 0,
     claude = (\<lambda>k. Inr (str ''Text.'')), requests = [], send_error = (\<lambda>k. None), sent = [],
     stdout = []\<rparr>"

definition fact_post :: "string \<Rightarrow> string \<Rightarrow> post" where
  "fact_post t wt = \<lparr>content = str ''Text.'', mode = Some (str ''fact''), topic = Some (str t),
     wonder_type = Some (str wt), summary = Some (str ''Sum.''), had_callback = Some False,
     answer = None, date = None\<rparr>"

definition six_posts :: "post list" where
  "six_posts = [fact_post ''t1'' ''w1'', fact_post ''t2'' ''w2'', fact_post ''t3'' ''w3'',
     fact_post ''t4'' ''w4'', fact_post ''t5'' ''w5'', fact_post ''t6'' ''w6'']"

definition now0 :: datetime where
  "now0 = 1762272000000000"

definition days_ago_post :: "string \<Rightarrow> int \<Rightarrow> post" where
  "days_ago_post m n = \<lparr>content = str ''Text.'', mode = Some (str m), topic = Some (str ''topology''),
     wonder_type = None, summary = Some (str ''Sum.''), had_callback = None, answer = None,
     date = Some (now0 - n * 86400000000)\<rparr>"

definition week_history :: history where
  "week_history = empty_history\<lparr>posts :=
     [days_ago_post ''fact'' 0, days_ago_post ''fact'' 6, days_ago_post ''fact'' 8]\<rparr>"

definition month_history :: history where
  "month_history = empty_history\<lparr>posts :=
     [days_ago_post ''fact'' 30, days_ago_post ''puzzle'' 12, days_ago_post ''fact'' 10,
      days_ago_post ''fact'' 9, days_ago_post ''what_if'' 8, days_ago_post ''fact'' 3,
      days_ago_post ''fact'' 1]\<rparr>"

definition down_world :: world where
  "down_world = world0\<lparr>history_file := Some week_history,
     claude := (\<lambda>k. Inl (APIError (str ''overloaded'')))\<rparr>"

definition puzzle_raw :: pystr where
  "puzzle_raw = str ''Puzzle text.'' @ [10, 10] @ str ''ANSWER: 42''"

definition puzzle_world :: world where
  "puzzle_world = world0\<lparr>claude := (\<lambda>k. if k = 0 then Inr puzzle_raw else Inr (str ''Sum.''))\<rparr>"

definition daily_world :: world where
  "daily_world = puzzle_world\<lparr>history_file :=
     Some (week_history\<lparr>pending_puzzle_answer := Some (str ''daily''),
       temp_answer := Some (str ''old'')\<rparr>)\<rparr>"

definition friday_world :: world where
  "friday_world = world0\<lparr>
     history_file := Some (week_history\<lparr>pending_puzzle_answer := Some (str ''daily'')\<rparr>),
     clock := (\<lambda>k. now0 + 3 * 86400000000),
     claude := (\<lambda>k. if k = 0 then Inr (str ''Riddle. ANSWER:'') else Inr (str ''Sum.''))\<rparr>"

definition friday_puzzle_world :: world where
  "friday_puzzle_world = friday_world\<lparr>claude :=
     (\<lambda>k. if k = 0 then Inr puzzle_raw else Inr (str ''Sum.''))\<rparr>"

section \<open>The history store\<close>

lemma last_n_last_n: "last_n n (last_n n xs @ ys) = last_n n (xs @ ys)"
proof (cases "n \<le> length xs")
  case True
  then have "length xs + length ys - (length xs - n + n) + (length xs - n) = length xs + length ys - n"
    by arith
  then show ?thesis using True by (simp add: last_n_def)
next
  case False
  then show ?thesis by (simp add: last_n_def)
qed

lemma length_last_n: "length (last_n n xs) = min (length xs) n"
  by (auto simp: last_n_def)

lemma carried_Nil: "carried f [] = []"
  by (simp add: carried_def List.map_filter_simps)

lemma carried_Cons:
  "carried f (p # ps) =
     (case f p of Some s \<Rightarrow> if s \<noteq> [] then s # carried f ps else carried f ps
      | None \<Rightarrow> carried f ps)"
  by (auto simp: carried_def List.map_filter_simps split: option.splits)

lemma carried_all:
  "\<forall>p\<in>set ps. carries f p \<Longrightarrow> carried f ps = map (\<lambda>p. get_default (f p) []) ps"
proof (induction ps)
  case Nil
  show ?case by (simp add: carried_Nil)
next
  case (Cons p ps)
  then obtain s where "f p = Some s" "s \<noteq> []"
    by (cases "f p") (auto simp: carries_def)
  with Cons show ?case by (simp add: carried_Cons get_default_def)
qed

lemma used_wonders_append_post:
  "used_wonders (append_post h p) =
     (case wonder_type p of
        Some s \<Rightarrow> if s \<noteq> [] then last_n 5 (used_wonders h @ [s]) else used_wonders h
      | None \<Rightarrow> used_wonders h)"
  by (simp add: append_post_def Let_def split: option.splits)

lemma used_topics_append_post:
  "used_topics (append_post h p) =
     (case topic p of
        Some s \<Rightarrow> if s \<noteq> [] then last_n 8 (used_topics h @ [s]) else used_topics h
      | None \<Rightarrow> used_topics h)"
  by (simp add: append_post_def Let_def split: option.splits)

lemma posts_append_post: "posts (append_post h p) = posts h @ [p]"
  by (simp add: append_post_def Let_def split: option.splits)

lemma pending_append_post:
  "pending_puzzle_answer (append_post h p) = pending_puzzle_answer h"
  by (simp add: append_post_def Let_def split: option.splits)

lemma temp_append_post: "temp_answer (append_post h p) = temp_answer h"
  by (simp add: append_post_def Let_def split: option.splits)

lemma append_post_shape:
  "append_post h p = h\<lparr>posts := posts (append_post h p),
     used_wonders := used_wonders (append_post h p),
     used_topics := used_topics (append_post h p)\<rparr>"
  by (simp add: append_post_def Let_def split: option.splits)

lemma add_to_history_eq:
  "add_to_history h p w = (Inr (append_post h p), w\<lparr>history_file := Some (append_post h p)\<rparr>)"
  by (simp add: add_to_history_def Let_def bind_def save_history_def return_def)

lemma used_wonders_foldl:
  "used_wonders (foldl append_post h ps) =
     (if carried wonder_type ps = [] then used_wonders h
      else last_n 5 (used_wonders h @ carried wonder_type ps))"
proof (induction ps arbitrary: h)
  case Nil
  show ?case by (simp add: carried_Nil)
next
  case (Cons p ps)
  show ?case
    by (simp add: Cons.IH carried_Cons used_wonders_append_post last_n_last_n split: option.splits)
qed

lemma used_topics_foldl:
  "used_topics (foldl append_post h ps) =
     (if carried topic ps = [] then used_topics h
      else last_n 8 (used_topics h @ carried topic ps))"
proof (induction ps arbitrary: h)
  case Nil
  show ?case by (simp add: carried_Nil)
next
  case (Cons p ps)
  show ?case
    by (simp add: Cons.IH carried_Cons used_topics_append_post last_n_last_n split: option.splits)
qed

lemma appends_eq:
  "appends h ps w =
     (Inr (foldl append_post h ps),
      if ps = [] then w else w\<lparr>history_file := Some (foldl append_post h ps)\<rparr>)"
proof (induction ps arbitrary: h w)
  case Nil
  show ?case by (simp add: return_def)
next
  case (Cons p ps)
  show ?case by (simp add: bind_def add_to_history_eq Cons.IH)
qed

lemma used_wonders_from_empty:
  "used_wonders (foldl append_post empty_history ps) = last_n 5 (carried wonder_type ps)"
  by (simp add: used_wonders_foldl empty_history_def last_n_def)

lemma used_topics_from_empty:
  "used_topics (foldl append_post empty_history ps) = last_n 8 (carried topic ps)"
  by (simp add: used_topics_foldl empty_history_def last_n_def)

text \<open>
  C10: \<open>add_to_history\<close> returns and saves the aggregate it was given with only
  \<open>posts\<close>, \<open>used_wonders\<close> and \<open>used_topics\<close> replaced; \<open>pending_puzzle_answer\<close> and
  the manual slot \<open>temp_answer\<close> keep their values, whatever the post is.
\<close>

theorem add_to_history_frame:
  "\<exists>h'. add_to_history h p w = (Inr h', w\<lparr>history_file := Some h'\<rparr>) \<and>
     h' = h\<lparr>posts := posts h', used_wonders := used_wonders h', used_topics := used_topics h'\<rparr> \<and>
     pending_puzzle_answer h' = pending_puzzle_answer h \<and>
     temp_answer h' = temp_answer h \<and>
     history.more h' = history.more h"
proof -
  have "append_post h p = h\<lparr>posts := posts (append_post h p),
     used_wonders := used_wonders (append_post h p),
     used_topics := used_topics (append_post h p)\<rparr>"
    by (rule append_post_shape)
  moreover have "history.more (append_post h p) = history.more h"
    by (simp add: append_post_def Let_def split: option.splits)
  ultimately show ?thesis
    using add_to_history_eq [of h p w] pending_append_post [of h p] temp_append_post [of h p]
    by blast
qed

text \<open>
  C4: starting from the empty aggregate, after the successive appends of the posts
  \<open>ps\<close> the list \<open>used_wonders\<close> has at most 5 entries and \<open>used_topics\<close> at most 8, in
  every state so reached; when every post carries a wonder type, \<open>used_wonders\<close> has
  \<open>min N 5\<close> entries and holds the most recent wonder types in order, the oldest dropped
  first; likewise for the topics with the bound 8.  The state saved is the one returned.
\<close>

theorem rotation_window:
  "\<exists>h'. fst (appends empty_history ps w) = Inr h' \<and>
     (ps \<noteq> [] \<longrightarrow> history_file (snd (appends empty_history ps w)) = Some h') \<and>
     length (used_wonders h') \<le> 5 \<and> length (used_topics h') \<le> 8 \<and>
     ((\<forall>p\<in>set ps. carries wonder_type p) \<longrightarrow>
        length (used_wonders h') = min (length ps) 5 \<and>
        used_wonders h' = last_n 5 (map (\<lambda>p. get_default (wonder_type p) []) ps)) \<and>
     ((\<forall>p\<in>set ps. carries topic p) \<longrightarrow>
        length (used_topics h') = min (length ps) 8 \<and>
        used_topics h' = last_n 8 (map (\<lambda>p. get_default (topic p) []) ps))"
proof -
  let ?h = "foldl append_post empty_history ps"
  have 1: "fst (appends empty_history ps w) = Inr ?h"
    by (simp add: appends_eq)
  have 2: "ps \<noteq> [] \<longrightarrow> history_file (snd (appends empty_history ps w)) = Some ?h"
    by (simp add: appends_eq)
  have 3: "length (used_wonders ?h) \<le> 5"
    by (simp add: used_wonders_from_empty length_last_n)
  have 4: "length (used_topics ?h) \<le> 8"
    by (simp add: used_topics_from_empty length_last_n)
  have 5: "(\<forall>p\<in>set ps. carries wonder_type p) \<longrightarrow>
        length (used_wonders ?h) = min (length ps) 5 \<and>
        used_wonders ?h = last_n 5 (map (\<lambda>p. get_default (wonder_type p) []) ps)"
    by (simp add: used_wonders_from_empty carried_all length_last_n)
  have 6: "(\<forall>p\<in>set ps. carries topic p) \<longrightarrow>
        length (used_topics ?h) = min (length ps) 8 \<and>
        used_topics ?h = last_n 8 (map (\<lambda>p. get_default (topic p) []) ps)"
    by (simp add: used_topics_from_empty carried_all length_last_n)
  from 1 2 3 4 5 6 show ?thesis by blast
qed

theorem rotation_window_witness:
  "\<exists>h'. fst (appends empty_history six_posts world0) = Inr h' \<and>
     history_file (snd (appends empty_history six_posts world0)) = Some h' \<and>
     length (used_wonders h') = 5 \<and>
     used_wonders h' = map str [''w2'', ''w3'', ''w4'', ''w5'', ''w6''] \<and>
     length (used_topics h') = 6 \<and>
     used_topics h' = map str [''t1'', ''t2'', ''t3'', ''t4'', ''t5'', ''t6'']"
proof -
  have w: "\<forall>p\<in>set six_posts. carries wonder_type p"
    by (simp add: six_posts_def fact_post_def carries_def str_def)
  have t: "\<forall>p\<in>set six_posts. carries topic p"
    by (simp add: six_posts_def fact_post_def carries_def str_def)
  have n: "six_posts \<noteq> []" "length six_posts = 6"
    by (simp_all add: six_posts_def)
  have lw: "last_n 5 (map (\<lambda>p. get_default (wonder_type p) []) six_posts) =
      map str [''w2'', ''w3'', ''w4'', ''w5'', ''w6'']"
    by (simp add: six_posts_def fact_post_def last_n_def get_default_def)
  have lt: "last_n 8 (map (\<lambda>p. get_default (topic p) []) six_posts) =
      map str [''t1'', ''t2'', ''t3'', ''t4'', ''t5'', ''t6'']"
    by (simp add: six_posts_def fact_post_def last_n_def get_default_def)
  from rotation_window [of six_posts world0] w t n lw lt show ?thesis
    by auto
qed

section \<open>The selection policy\<close>

lemma recent_loop_dated:
  "dated ps \<Longrightarrow> recent_loop now days ps acc = Inr (acc @ filter (age_at_most now days) ps)"
  by (induction ps arbitrary: acc) (auto simp: dated_def age_at_most_def)

lemma recent_loop_undated:
  "\<not> dated ps \<Longrightarrow> recent_loop now days ps acc = Inl (KeyError (str ''date''))"
  by (induction ps arbitrary: acc) (auto simp: dated_def split: option.splits)

lemma callback_loop_dated:
  "dated ps \<Longrightarrow> callback_loop now ps acc = Inr (acc @ filter (callback_band now) ps)"
  by (induction ps arbitrary: acc) (auto simp: dated_def callback_band_def Let_def)

lemma callback_loop_undated:
  "\<not> dated ps \<Longrightarrow> callback_loop now ps acc = Inl (KeyError (str ''date''))"
  by (induction ps arbitrary: acc) (auto simp: dated_def Let_def split: option.splits)

lemma get_recent_posts_dated:
  "dated (posts h) \<Longrightarrow>
   get_recent_posts h days w =
     (Inr (filter (age_at_most (clock w (clock_reads w)) days) (posts h)),
      if posts h = [] then w else w\<lparr>clock_reads := Suc (clock_reads w)\<rparr>)"
  by (simp add: get_recent_posts_def return_def bind_def utcnow_def recent_loop_dated)

text \<open>A post without its \<open>date\<close> key makes the function raise KeyError.\<close>

lemma get_recent_posts_undated:
  "\<not> dated (posts h) \<Longrightarrow> fst (get_recent_posts h days w) = Inl (KeyError (str ''date''))"
  by (auto simp: get_recent_posts_def return_def bind_def utcnow_def raise_def
      recent_loop_undated dated_def)

text \<open>
  C8: for every history whose posts have their date and every window,
  \<open>get_recent_posts\<close> reads the clock once and returns exactly the posts whose whole-day
  age, the floor of (now - date) in days, is at most the window, in their original order.
\<close>

theorem get_recent_posts_spec:
  "dated (posts h) \<Longrightarrow>
   get_recent_posts h days w =
     (Inr (filter (age_at_most (clock w (clock_reads w)) days) (posts h)),
      if posts h = [] then w else w\<lparr>clock_reads := Suc (clock_reads w)\<rparr>)"
  by (rule get_recent_posts_dated)

text \<open>Posts dated today, 6 days ago and 8 days ago, window 7: exactly the first two.\<close>

theorem get_recent_posts_spec_witness:
  "dated (posts week_history) \<and>
   fst (get_recent_posts week_history 7 world0) =
     Inr [days_ago_post ''fact'' 0, days_ago_post ''fact'' 6]"
proof -
  have d: "dated (posts week_history)"
    by (simp add: week_history_def dated_def days_ago_post_def)
  have "filter (age_at_most (clock world0 (clock_reads world0)) 7) (posts week_history) =
      [days_ago_post ''fact'' 0, days_ago_post ''fact'' 6]"
    by (simp add: week_history_def world0_def age_at_most_def days_ago_post_def now0_def
        timedelta_days_def)
  with get_recent_posts_spec [OF d, of 7 world0] d show ?thesis by simp
qed

lemma random_choice_ok:
  "rng_ok w \<Longrightarrow> xs \<noteq> [] \<Longrightarrow>
   randbelow w (rng_calls w) (length xs) < length xs \<and>
   random_choice xs w =
     (Inr (xs ! randbelow w (rng_calls w) (length xs)), w\<lparr>rng_calls := Suc (rng_calls w)\<rparr>)"
  by (simp add: random_choice_def rng_ok_def Let_def)

lemma card_positions: "card {i. i < length xs \<and> xs ! i = v} = count_list xs v"
proof (induction xs rule: rev_induct)
  case Nil
  show ?case by simp
next
  case (snoc x xs)
  have s: "{i. i < length (xs @ [x]) \<and> (xs @ [x]) ! i = v} =
        {i. i < length xs \<and> xs ! i = v} \<union> (if x = v then {length xs} else {})"
    by (auto simp: nth_append less_Suc_eq)
  have f: "finite {i. i < length xs \<and> xs ! i = v}" by simp
  have d: "length xs \<notin> {i. i < length xs \<and> xs ! i = v}" by simp
  show ?case
  proof (cases "x = v")
    case True
    then have "{i. i < length (xs @ [x]) \<and> (xs @ [x]) ! i = v} =
        insert (length xs) {i. i < length xs \<and> xs ! i = v}"
      using s by simp
    then show ?thesis using snoc f d True by (simp del: length_append)
  next
    case False
    then show ?thesis using snoc s by simp
  qed
qed

lemma random_choice_draw:
  "i < length xs \<Longrightarrow> random_choice xs (with_draw i w) =
     (Inr (xs ! i), with_draw i (w\<lparr>rng_calls := Suc (rng_calls w)\<rparr>))"
  by (auto simp: random_choice_def with_draw_def Let_def)

lemma random_choice_draws:
  "card {i. i < length xs \<and> fst (random_choice xs (with_draw i w)) = Inr v} = count_list xs v"
proof -
  have "{i. i < length xs \<and> fst (random_choice xs (with_draw i w)) = Inr v} =
      {i. i < length xs \<and> xs ! i = v}"
    by (auto simp: random_choice_draw)
  then show ?thesis by (simp add: card_positions)
qed

lemma pick_fresh_value:
  assumes "options \<noteq> []" "rng_ok w"
  shows "let fresh = filter (\<lambda>x. x \<notin> set recently_used) options;
        pool = (if fresh = [] then options else fresh);
        i = randbelow w (rng_calls w) (length pool)
    in i < length pool \<and>
       pick_fresh options recently_used w = (Inr (pool ! i), w\<lparr>rng_calls := Suc (rng_calls w)\<rparr>) \<and>
       pool ! i \<in> set options \<and>
       (fresh \<noteq> [] \<longrightarrow> pool ! i \<notin> set recently_used)"
proof -
  let ?fresh = "filter (\<lambda>x. x \<notin> set recently_used) options"
  show ?thesis
  proof (cases "?fresh = []")
    case True
    from random_choice_ok [OF assms(2) assms(1)] True show ?thesis
      by (simp add: pick_fresh_def Let_def)
  next
    case False
    have "?fresh ! randbelow w (rng_calls w) (length ?fresh) \<in> set ?fresh"
      using random_choice_ok [OF assms(2) False] by (meson nth_mem)
    with random_choice_ok [OF assms(2) False] False show ?thesis
      by (simp add: pick_fresh_def Let_def)
  qed
qed

lemma pick_fresh_draws:
  "let fresh = filter (\<lambda>x. x \<notin> set recently_used) options;
       pool = (if fresh = [] then options else fresh)
   in card {i. i < length pool \<and>
        fst (pick_fresh options recently_used (with_draw i w)) = Inr v} = count_list pool v"
  using random_choice_draws [of options w v]
    random_choice_draws [of "filter (\<lambda>x. x \<notin> set recently_used) options" w v]
  by (simp add: pick_fresh_def Let_def)

text \<open>
  C3, as amended: for every non-empty options list and every recently-used list,
  \<open>pick_fresh\<close> does not fail; with \<open>pool\<close> the options not in the recently-used list when
  there are some and the full options list otherwise, it returns the entry of \<open>pool\<close> at
  the position that \<open>randbelow (length pool)\<close> draws, a member of \<open>options\<close> (and not a
  recently used one when a fresh one exists).  The choice is uniform over the positions
  of \<open>pool\<close>: of the \<open>length pool\<close> possible draws, as many give the value \<open>v\<close> as \<open>v\<close>
  has occurrences in \<open>pool\<close>.
\<close>

theorem pick_fresh_nonempty:
  "options \<noteq> [] \<and> rng_ok w \<longrightarrow>
   (let fresh = filter (\<lambda>x. x \<notin> set recently_used) options;
        pool = (if fresh = [] then options else fresh);
        i = randbelow w (rng_calls w) (length pool)
    in i < length pool \<and>
       pick_fresh options recently_used w = (Inr (pool ! i), w\<lparr>rng_calls := Suc (rng_calls w)\<rparr>) \<and>
       pool ! i \<in> set options \<and>
       (fresh \<noteq> [] \<longrightarrow> pool ! i \<notin> set recently_used) \<and>
       (\<forall>v. card {j. j < length pool \<and>
              fst (pick_fresh options recently_used (with_draw j w)) = Inr v} = count_list pool v))"
  using pick_fresh_value [of options w recently_used] pick_fresh_draws [of recently_used options w]
  by (simp add: Let_def)

theorem pick_fresh_nonempty_witness:
  "fst (pick_fresh (map str [''a'', ''b'', ''c'']) (map str [''a'']) world0) = Inr (str ''b'') \<and>
   fst (pick_fresh (map str [''a'', ''b'']) (map str [''b'', ''a'']) world0) = Inr (str ''a'')"
proof -
  have ok: "rng_ok world0" by (simp add: rng_ok_def world0_def)
  have 1: "fst (pick_fresh (map str [''a'', ''b'', ''c'']) (map str [''a'']) world0) = Inr (str ''b'')"
    using pick_fresh_nonempty [of "map str [''a'', ''b'', ''c'']" world0 "map str [''a'']"] ok
    by (simp add: Let_def str_def world0_def)
  have 2: "fst (pick_fresh (map str [''a'', ''b'']) (map str [''b'', ''a'']) world0) = Inr (str ''a'')"
    using pick_fresh_nonempty [of "map str [''a'', ''b'']" world0 "map str [''b'', ''a'']"] ok
    by (simp add: Let_def str_def world0_def)
  from 1 2 show ?thesis by simp
qed

text \<open>With no option at all \<open>random.choice\<close> raises IndexError.\<close>

theorem pick_fresh_empty_counterexample:
  "fst (pick_fresh ([] :: pystr list) [] world0) = Inl IndexError"
  by (simp add: pick_fresh_def random_choice_def)

lemma get_callback_candidate_few:
  "length (posts h) < 7 \<Longrightarrow> get_callback_candidate h w = (Inr None, w)"
  by (simp add: get_callback_candidate_def return_def)

lemma get_callback_candidate_none:
  "7 \<le> length (posts h) \<Longrightarrow> dated (posts h) \<Longrightarrow>
   filter (callback_band (clock w (clock_reads w))) (posts h) = [] \<Longrightarrow>
   get_callback_candidate h w = (Inr None, w\<lparr>clock_reads := Suc (clock_reads w)\<rparr>)"
  by (simp add: get_callback_candidate_def bind_def utcnow_def callback_loop_dated return_def)

lemma get_callback_candidate_some:
  assumes "7 \<le> length (posts h)" "dated (posts h)" "rng_ok w"
    "filter (callback_band (clock w (clock_reads w))) (posts h) = cs" "cs \<noteq> []"
  shows "randbelow w (rng_calls w) (length cs) < length cs \<and>
     get_callback_candidate h w =
       (Inr (Some (cs ! randbelow w (rng_calls w) (length cs))),
        w\<lparr>clock_reads := Suc (clock_reads w), rng_calls := Suc (rng_calls w)\<rparr>)"
proof -
  have ok: "rng_ok (w\<lparr>clock_reads := Suc (clock_reads w)\<rparr>)"
    using assms(3) by (simp add: rng_ok_def)
  from random_choice_ok [OF ok assms(5)] assms show ?thesis
    by (simp add: get_callback_candidate_def bind_def utcnow_def callback_loop_dated return_def)
qed

lemma get_callback_candidate_draw:
  assumes "7 \<le> length (posts h)" "dated (posts h)"
    "filter (callback_band (clock w (clock_reads w))) (posts h) = cs" "i < length cs"
  shows "fst (get_callback_candidate h (with_draw i w)) = Inr (Some (cs ! i))"
proof -
  have e: "(with_draw i w)\<lparr>clock_reads := Suc (clock_reads w)\<rparr> =
      with_draw i (w\<lparr>clock_reads := Suc (clock_reads w)\<rparr>)"
    by (simp add: with_draw_def)
  have c: "clock (with_draw i w) = clock w" "clock_reads (with_draw i w) = clock_reads w"
    by (simp_all add: with_draw_def)
  from assms(4) have "cs \<noteq> []" by auto
  with assms random_choice_draw [OF assms(4), of "w\<lparr>clock_reads := Suc (clock_reads w)\<rparr>"]
  show ?thesis
    by (simp add: get_callback_candidate_def bind_def utcnow_def callback_loop_dated return_def c e)
qed

lemma get_callback_candidate_draws:
  assumes "7 \<le> length (posts h)" "dated (posts h)"
    "filter (callback_band (clock w (clock_reads w))) (posts h) = cs"
  shows "card {i. i < length cs \<and> fst (get_callback_candidate h (with_draw i w)) = Inr (Some c)} =
     count_list cs c"
proof -
  have "{i. i < length cs \<and> fst (get_callback_candidate h (with_draw i w)) = Inr (Some c)} =
      {i. i < length cs \<and> cs ! i = c}"
    using get_callback_candidate_draw [OF assms] by auto
  then show ?thesis by (simp add: card_positions)
qed

text \<open>
  C5: \<open>get_callback_candidate\<close> returns none when the history has fewer than 7 posts.
  With 7 posts or more, each with its date, the candidates are the posts of mode fact
  whose whole-day age is in the band from 7 to 21, both included: it returns none when
  there is no candidate, and otherwise the candidate at the position that
  \<open>randbelow (length candidates)\<close> draws, uniformly over the positions: as many draws
  give the post \<open>c\<close> as \<open>c\<close> has occurrences among the candidates.
\<close>

theorem get_callback_candidate_spec:
  "(length (posts h) < 7 \<longrightarrow> get_callback_candidate h w = (Inr None, w)) \<and>
   (7 \<le> length (posts h) \<and> dated (posts h) \<and> rng_ok w \<longrightarrow>
      (let now = clock w (clock_reads w);
           candidates = filter (callback_band now) (posts h);
           i = randbelow w (rng_calls w) (length candidates)
       in if candidates = []
          then get_callback_candidate h w = (Inr None, w\<lparr>clock_reads := Suc (clock_reads w)\<rparr>)
          else i < length candidates \<and>
               get_callback_candidate h w =
                 (Inr (Some (candidates ! i)),
                  w\<lparr>clock_reads := Suc (clock_reads w), rng_calls := Suc (rng_calls w)\<rparr>) \<and>
               (\<forall>c. card {j. j < length candidates \<and>
                      fst (get_callback_candidate h (with_draw j w)) = Inr (Some c)} =
                    count_list candidates c)))"
  using get_callback_candidate_few [of h w] get_callback_candidate_none [of h w]
    get_callback_candidate_some [of h w, OF _ _ _ refl]
    get_callback_candidate_draws [of h w, OF _ _ refl]
  by (simp add: Let_def)

theorem get_callback_candidate_spec_witness:
  "get_callback_candidate week_history world0 = (Inr None, world0) \<and>
   fst (get_callback_candidate month_history world0) = Inr (Some (days_ago_post ''fact'' 10))"
proof -
  have ok: "rng_ok world0" by (simp add: rng_ok_def world0_def)
  have d: "dated (posts month_history)"
    by (simp add: month_history_def dated_def days_ago_post_def)
  have l: "length (posts week_history) < 7" "7 \<le> length (posts month_history)"
    by (simp_all add: week_history_def month_history_def)
  have c: "filter (callback_band (clock world0 (clock_reads world0))) (posts month_history) =
      [days_ago_post ''fact'' 10, days_ago_post ''fact'' 9]"
    by (simp add: month_history_def world0_def callback_band_def days_ago_post_def now0_def
        timedelta_days_def str_def)
  have r: "\<And>k n. randbelow world0 k n = 0" by (simp add: world0_def)
  from get_callback_candidate_spec [of week_history world0] l(1)
  have 1: "get_callback_candidate week_history world0 = (Inr None, world0)" by simp
  from get_callback_candidate_spec [of month_history world0] l(2) d ok c r
  have 2: "fst (get_callback_candidate month_history world0) = Inr (Some (days_ago_post ''fact'' 10))"
    by (simp add: Let_def)
  from 1 2 show ?thesis by simp
qed

section \<open>Frames of the procedures\<close>

lemma frame_rels: "frame_rel steady_rel" "frame_rel silent_rel" "frame_rel offline_rel"
  by (auto simp: frame_rel_def steady_rel_def silent_rel_def offline_rel_def)

lemma preserves_bind:
  assumes "frame_rel R" "preserves R m" "\<And>a. preserves R (f a)"
  shows "preserves R (bind m f)"
  unfolding preserves_def
proof
  fix w
  obtain r w1 where m: "m w = (r, w1)" by (cases "m w")
  have 1: "R w w1" using assms(2) m by (auto simp: preserves_def dest: spec [of _ w])
  show "R w (snd (bind m f w))"
  proof (cases r)
    case (Inl e)
    then show ?thesis using m 1 by (simp add: bind_def)
  next
    case (Inr a)
    have "R w1 (snd (f a w1))" using assms(3) [of a] by (simp add: preserves_def)
    then show ?thesis using m 1 Inr assms(1) by (auto simp: bind_def frame_rel_def)
  qed
qed

lemma preserves_return: "frame_rel R \<Longrightarrow> preserves R (return a)"
  by (simp add: preserves_def return_def frame_rel_def)

lemma preserves_raise: "frame_rel R \<Longrightarrow> preserves R (raise e)"
  by (simp add: preserves_def raise_def frame_rel_def)

lemma preserves_if: "preserves R a \<Longrightarrow> preserves R b \<Longrightarrow> preserves R (if c then a else b)"
  by simp

lemma preserves_option:
  "preserves R a \<Longrightarrow> (\<And>x. preserves R (b x)) \<Longrightarrow>
   preserves R (case v of None \<Rightarrow> a | Some x \<Rightarrow> b x)"
  by (cases v) simp_all

lemma preserves_sum:
  "(\<And>x. preserves R (a x)) \<Longrightarrow> (\<And>x. preserves R (b x)) \<Longrightarrow>
   preserves R (case v of Inl x \<Rightarrow> a x | Inr x \<Rightarrow> b x)"
  by (cases v) simp_all

lemma preserves_prod:
  "(\<And>x y. preserves R (f x y)) \<Longrightarrow> preserves R (case v of (x, y) \<Rightarrow> f x y)"
  by (cases v) simp_all

lemmas preserves_struct = preserves_bind preserves_return preserves_raise preserves_if
  preserves_option preserves_sum preserves_prod

lemma sel_frameD:
  assumes "sel_frame R"
  shows "frame_rel R" "preserves R utcnow" "preserves R random_lt_03"
    "preserves R (random_choice (ps :: post list))" "preserves R (random_choice (ss :: pystr list))"
  using assms by (simp_all add: sel_frame_def)

lemma gen_frameD:
  assumes "gen_frame R"
  shows "sel_frame R" "preserves R (messages_create m n p)"
  using assms by (simp_all add: gen_frame_def)

lemma sel_frames: "sel_frame steady_rel" "sel_frame silent_rel" "sel_frame offline_rel"
  by (simp_all add: sel_frame_def frame_rels preserves_def steady_rel_def silent_rel_def
      offline_rel_def utcnow_def random_choice_def random_lt_03_def Let_def)

lemma gen_frames: "gen_frame steady_rel" "gen_frame silent_rel"
  by (simp_all add: gen_frame_def sel_frames preserves_def steady_rel_def silent_rel_def
      messages_create_def)

lemma steady_io:
  "preserves steady_rel (send msg)" "preserves steady_rel (print pr)"
  "preserves steady_rel load_history" "preserves steady_rel (save_history h)"
  by (simp_all add: preserves_def steady_rel_def send_def print_def load_history_def
      save_history_def split: option.splits)

lemma offline_io:
  "preserves offline_rel (send msg)" "preserves offline_rel (print pr)"
  "preserves offline_rel load_history" "preserves offline_rel (save_history h)"
  by (simp_all add: preserves_def offline_rel_def send_def print_def load_history_def
      save_history_def split: option.splits)

lemma preserves_pick_fresh_str:
  "sel_frame R \<Longrightarrow> preserves R (pick_fresh (options :: pystr list) recently_used)"
  by (simp add: pick_fresh_def Let_def sel_frameD)

lemma preserves_get_recent_posts: "sel_frame R \<Longrightarrow> preserves R (get_recent_posts h d)"
  unfolding get_recent_posts_def by (intro preserves_struct sel_frameD)

lemma preserves_get_callback_candidate:
  "sel_frame R \<Longrightarrow> preserves R (get_callback_candidate h)"
  unfolding get_callback_candidate_def by (intro preserves_struct sel_frameD)

lemma preserves_build_context_block: "sel_frame R \<Longrightarrow> preserves R (build_context_block h)"
  unfolding build_context_block_def
  by (intro preserves_struct preserves_get_recent_posts sel_frameD)

lemma preserves_callback_opportunity: "sel_frame R \<Longrightarrow> preserves R (callback_opportunity h)"
  unfolding callback_opportunity_def
  by (intro preserves_struct preserves_get_callback_candidate sel_frameD)

lemmas preserves_sel = preserves_pick_fresh_str preserves_get_recent_posts
  preserves_get_callback_candidate preserves_build_context_block preserves_callback_opportunity

lemma preserves_generate_summary: "gen_frame R \<Longrightarrow> preserves R (generate_summary c)"
  unfolding generate_summary_def
  by (intro preserves_struct gen_frameD sel_frameD)

lemma preserves_generate_fact: "gen_frame R \<Longrightarrow> preserves R (generate_fact h)"
  unfolding generate_fact_def
  by (intro preserves_struct preserves_sel preserves_generate_summary gen_frameD sel_frameD)

lemma preserves_generate_what_if: "gen_frame R \<Longrightarrow> preserves R (generate_what_if h)"
  unfolding generate_what_if_def
  by (intro preserves_struct preserves_sel preserves_generate_summary gen_frameD sel_frameD)

lemma preserves_generate_puzzle: "gen_frame R \<Longrightarrow> preserves R (generate_puzzle h)"
  unfolding generate_puzzle_def
  by (intro preserves_struct preserves_sel preserves_generate_summary gen_frameD sel_frameD)

lemma preserves_generate_connections: "gen_frame R \<Longrightarrow> preserves R (generate_connections h)"
  unfolding generate_connections_def Let_def
  by (intro preserves_struct preserves_sel preserves_generate_summary preserves_generate_fact
      gen_frameD sel_frameD)

lemma preserves_generate_content: "gen_frame R \<Longrightarrow> preserves R (generate_content m h)"
  unfolding generate_content_def
  by (intro preserves_struct preserves_generate_fact preserves_generate_what_if
      preserves_generate_puzzle preserves_generate_connections)

lemmas preserves_gen = preserves_generate_summary preserves_generate_fact
  preserves_generate_what_if preserves_generate_puzzle preserves_generate_connections
  preserves_generate_content


section \<open>Failure of the model\<close>

lemma preservesD: "preserves R m \<Longrightarrow> R w (snd (m w))"
  by (simp add: preserves_def)

lemma fails_fast_offline:
  assumes "preserves steady_rel m" "preserves offline_rel m"
  shows "fails_fast m"
  using preservesD [OF assms(1)] preservesD [OF assms(2)]
  by (auto simp: fails_fast_def steady_rel_def offline_rel_def api_failed_def)

lemma fails_fast_messages_create: "fails_fast (messages_create m n p)"
  by (auto simp: fails_fast_def messages_create_def api_failed_def less_Suc_eq)

lemma fails_fast_bind:
  assumes "fails_fast m" "\<And>a. fails_fast (f a)"
  shows "fails_fast (bind m f)"
  unfolding fails_fast_def
proof
  fix w
  obtain r w1 where m: "m w = (r, w1)" by (cases "m w")
  from assms(1) m have 1: "claude w1 = claude w" "length (requests w) \<le> length (requests w1)"
    "api_failed w w1 \<longrightarrow> isl r"
    by (auto simp: fails_fast_def dest: spec [of _ w])
  show "claude (snd (bind m f w)) = claude w \<and>
      length (requests w) \<le> length (requests (snd (bind m f w))) \<and>
      (api_failed w (snd (bind m f w)) \<longrightarrow> isl (fst (bind m f w)))"
  proof (cases r)
    case (Inl e)
    with m 1 show ?thesis by (simp add: bind_def)
  next
    case (Inr a)
    obtain r2 w2 where f: "f a w1 = (r2, w2)" by (cases "f a w1")
    from assms(2) [of a] f have 2: "claude w2 = claude w1"
      "length (requests w1) \<le> length (requests w2)" "api_failed w1 w2 \<longrightarrow> isl r2"
      by (auto simp: fails_fast_def dest: spec [of _ w1])
    have "api_failed w w2 \<longrightarrow> isl r2"
    proof
      assume "api_failed w w2"
      then obtain k where k: "length (requests w) \<le> k" "k < length (requests w2)" "isl (claude w k)"
        by (auto simp: api_failed_def)
      show "isl r2"
      proof (cases "k < length (requests w1)")
        case True
        with k have "api_failed w w1" by (auto simp: api_failed_def)
        with 1(3) Inr show ?thesis by simp
      next
        case False
        with k 1(1) have "api_failed w1 w2"
          unfolding api_failed_def by (intro exI [of _ k]) simp
        with 2(3) show ?thesis by simp
      qed
    qed
    with m Inr f 1 2 show ?thesis by (simp add: bind_def)
  qed
qed

lemma fails_fast_if: "fails_fast a \<Longrightarrow> fails_fast b \<Longrightarrow> fails_fast (if c then a else b)"
  by simp

lemma fails_fast_prod:
  "(\<And>x y. fails_fast (f x y)) \<Longrightarrow> fails_fast (case v of (x, y) \<Rightarrow> f x y)"
  by (cases v) simp_all

lemma fails_fast_sum:
  "(\<And>x. fails_fast (a x)) \<Longrightarrow> (\<And>x. fails_fast (b x)) \<Longrightarrow>
   fails_fast (case v of Inl x \<Rightarrow> a x | Inr x \<Rightarrow> b x)"
  by (cases v) simp_all

lemma fails_fast_return: "fails_fast (return a)"
  by (simp add: fails_fast_def return_def api_failed_def)

lemma fails_fast_raise: "fails_fast (raise e)"
  by (simp add: fails_fast_def raise_def api_failed_def)

lemma fails_fast_sel:
  "fails_fast (pick_fresh (options :: pystr list) recently_used)"
  "fails_fast (get_recent_posts h d)" "fails_fast (build_context_block h)"
  "fails_fast (callback_opportunity h)" "fails_fast utcnow"
  by (intro fails_fast_offline preserves_sel sel_frames sel_frameD)+

lemma fails_fast_io:
  "fails_fast load_history" "fails_fast (save_history h)" "fails_fast (send msg)"
  "fails_fast (print pr)"
  by (intro fails_fast_offline steady_io offline_io)+

lemmas fails_fast_struct = fails_fast_bind fails_fast_if fails_fast_prod fails_fast_sum
  fails_fast_return fails_fast_raise fails_fast_messages_create fails_fast_sel fails_fast_io

lemma fails_fast_generate_summary: "fails_fast (generate_summary c)"
  unfolding generate_summary_def by (intro fails_fast_struct)

lemma fails_fast_generate_fact: "fails_fast (generate_fact h)"
  unfolding generate_fact_def by (intro fails_fast_struct fails_fast_generate_summary)

lemma fails_fast_generate_what_if: "fails_fast (generate_what_if h)"
  unfolding generate_what_if_def by (intro fails_fast_struct fails_fast_generate_summary)

lemma fails_fast_generate_puzzle: "fails_fast (generate_puzzle h)"
  unfolding generate_puzzle_def by (intro fails_fast_struct fails_fast_generate_summary)

lemma fails_fast_generate_connections: "fails_fast (generate_connections h)"
  unfolding generate_connections_def Let_def
  by (intro fails_fast_struct fails_fast_generate_summary fails_fast_generate_fact)

lemma fails_fast_generate_content: "fails_fast (generate_content m h)"
  unfolding generate_content_def
  by (intro fails_fast_struct fails_fast_generate_fact fails_fast_generate_what_if
      fails_fast_generate_puzzle fails_fast_generate_connections)

lemmas fails_fast_gen = fails_fast_generate_summary fails_fast_generate_fact
  fails_fast_generate_what_if fails_fast_generate_puzzle fails_fast_generate_connections
  fails_fast_generate_content

lemma add_to_history_offline: "preserves offline_rel (add_to_history h p)"
  by (simp add: preserves_def offline_rel_def add_to_history_eq)

lemma add_to_history_steady: "preserves steady_rel (add_to_history h p)"
  by (simp add: preserves_def steady_rel_def add_to_history_eq)

lemma fails_fast_add_to_history: "fails_fast (add_to_history h p)"
  by (intro fails_fast_offline add_to_history_offline add_to_history_steady)

lemma fails_fast_daily_post_body: "fails_fast daily_post_body"
  unfolding daily_post_body_def Let_def
  by (intro fails_fast_struct fails_fast_gen fails_fast_add_to_history)

lemma fails_fast_get_fact: "fails_fast (get_fact author t)"
  unfolding get_fact_def by (intro fails_fast_struct fails_fast_gen)

lemma fails_fast_get_what_if: "fails_fast (get_what_if author)"
  unfolding get_what_if_def by (intro fails_fast_struct fails_fast_gen)

lemma fails_fast_get_puzzle: "fails_fast (get_puzzle author)"
  unfolding get_puzzle_def Let_def by (intro fails_fast_struct fails_fast_gen)

lemma fails_fast_get_answer: "fails_fast get_answer"
  unfolding get_answer_def Let_def by (intro fails_fast_struct)

text \<open>An exception before the first write leaves the file and the channel alone.\<close>

lemma abort_safe_quiet:
  assumes "preserves steady_rel m" "preserves silent_rel m" "preserves offline_rel m"
    "\<And>a. abort_safe (f a)"
  shows "abort_safe (bind m f)"
  unfolding abort_safe_def
proof (intro allI impI)
  fix w
  assume fail: "api_failed w (snd (bind m f w))"
  obtain r w1 where m: "m w = (r, w1)" by (cases "m w")
  from preservesD [OF assms(1), of w] preservesD [OF assms(2), of w] preservesD [OF assms(3), of w] m
  have 1: "claude w1 = claude w" "silent_rel w w1" "requests w1 = requests w"
    by (simp_all add: steady_rel_def offline_rel_def)
  show "silent_rel w (snd (bind m f w))"
  proof (cases r)
    case (Inl e)
    with m 1 show ?thesis by (simp add: bind_def)
  next
    case (Inr a)
    with m fail 1 have "api_failed w1 (snd (f a w1))" by (simp add: bind_def api_failed_def)
    with assms(4) [of a] have "silent_rel w1 (snd (f a w1))"
      by (simp add: abort_safe_def)
    with m Inr 1 show ?thesis by (simp add: bind_def silent_rel_def)
  qed
qed

lemma abort_safe_gen:
  assumes "fails_fast m" "preserves silent_rel m" "\<And>a. preserves offline_rel (f a)"
  shows "abort_safe (bind m f)"
  unfolding abort_safe_def
proof (intro allI impI)
  fix w
  assume fail: "api_failed w (snd (bind m f w))"
  obtain r w1 where m: "m w = (r, w1)" by (cases "m w")
  from preservesD [OF assms(2), of w] m have 1: "silent_rel w w1" by simp
  from assms(1) m have 2: "api_failed w w1 \<longrightarrow> isl r"
    by (auto simp: fails_fast_def dest: spec [of _ w])
  show "silent_rel w (snd (bind m f w))"
  proof (cases r)
    case (Inl e)
    with m 1 show ?thesis by (simp add: bind_def)
  next
    case (Inr a)
    from preservesD [OF assms(3) [of a], of w1]
    have "requests (snd (f a w1)) = requests w1" by (simp add: offline_rel_def)
    with m Inr fail have "api_failed w w1" by (simp add: bind_def api_failed_def)
    with 2 Inr show ?thesis by simp
  qed
qed

lemma abort_safe_offline:
  assumes "preserves offline_rel m"
  shows "abort_safe m"
  using preservesD [OF assms] by (auto simp: abort_safe_def api_failed_def offline_rel_def)

lemma load_history_silent: "preserves silent_rel load_history"
  by (simp add: preserves_def silent_rel_def load_history_def split: option.splits)

lemma offline_rest:
  "preserves offline_rel (bind utcnow (\<lambda>stamp. bind (send (e stamp)) (\<lambda>_.
     bind (print p) (\<lambda>_. bind utcnow (\<lambda>d. bind (add_to_history (h d) (q d)) (\<lambda>_. return ()))))))"
  by (intro preserves_struct frame_rels sel_frames sel_frameD offline_io add_to_history_offline)

lemma abort_safe_daily_post_body: "abort_safe daily_post_body"
  unfolding daily_post_body_def Let_def
  by (intro abort_safe_quiet abort_safe_gen fails_fast_gen preserves_gen gen_frames
      offline_rest steady_io offline_io sel_frames sel_frameD load_history_silent)

lemma offline_utcnow: "preserves offline_rel utcnow"
  by (rule sel_frameD(2) [OF sel_frames(3)])

lemma silent_messages_create: "preserves silent_rel (messages_create m n p)"
  by (rule gen_frameD(2) [OF gen_frames(2)])

lemma abort_safe_load:
  assumes "\<And>h. abort_safe (f h)"
  shows "abort_safe (bind load_history f)"
  by (rule abort_safe_quiet [OF steady_io(3) load_history_silent offline_io(3) assms])

lemma abort_safe_get_fact: "abort_safe (get_fact author t)"
  unfolding get_fact_def
proof (rule abort_safe_load, rule abort_safe_gen)
  fix h
  show "fails_fast (if truthy t
      then bind (messages_create Sonnet 1024 (CustomFactPrompt (get_default t [])))
             (\<lambda>content'. return (content', get_default t []))
      else bind (generate_fact h)
             (\<lambda>result. return (content result, get_default (topic result) (str ''Physics & Math''))))"
    by (intro fails_fast_if fails_fast_bind fails_fast_return fails_fast_messages_create
        fails_fast_generate_fact)
  show "preserves silent_rel (if truthy t
      then bind (messages_create Sonnet 1024 (CustomFactPrompt (get_default t [])))
             (\<lambda>content'. return (content', get_default t []))
      else bind (generate_fact h)
             (\<lambda>result. return (content result, get_default (topic result) (str ''Physics & Math''))))"
    by (intro preserves_if preserves_bind preserves_return frame_rels silent_messages_create
        preserves_generate_fact gen_frames)
  fix a :: "pystr \<times> pystr"
  show "preserves offline_rel (case a of (content', used_topic) \<Rightarrow>
      bind utcnow (\<lambda>stamp. send (Embed \<lparr>title = FactTitle used_topic, description = content',
        color = 0x5865F2, timestamp = Some stamp, footer = RequestedBy author\<rparr>)))"
    by (intro preserves_prod preserves_bind frame_rels offline_utcnow offline_io)
qed

lemma abort_safe_get_what_if: "abort_safe (get_what_if author)"
  unfolding get_what_if_def
proof (rule abort_safe_load, rule abort_safe_gen)
  fix h
  show "fails_fast (generate_what_if h)" by (rule fails_fast_generate_what_if)
  show "preserves silent_rel (generate_what_if h)"
    by (rule preserves_generate_what_if [OF gen_frames(2)])
  fix result :: post
  show "preserves offline_rel (bind utcnow (\<lambda>stamp. send (Embed \<lparr>title = WhatIfTitle,
      description = content result, color = 0xEB459E, timestamp = Some stamp,
      footer = RequestedBy author\<rparr>)))"
    by (intro preserves_bind frame_rels offline_utcnow offline_io)
qed

lemma abort_safe_get_puzzle: "abort_safe (get_puzzle author)"
  unfolding get_puzzle_def Let_def
proof (rule abort_safe_load, rule abort_safe_gen)
  fix h
  show "fails_fast (generate_puzzle h)" by (rule fails_fast_generate_puzzle)
  show "preserves silent_rel (generate_puzzle h)"
    by (rule preserves_generate_puzzle [OF gen_frames(2)])
  fix result :: post
  show "preserves offline_rel (bind utcnow (\<lambda>stamp.
      bind (save_history (h\<lparr>temp_answer :=
          Some (get_default (answer result) (str ''No answer available''))\<rparr>))
        (\<lambda>_. send (Embed \<lparr>title = PuzzleTitle (get_default (topic result) (str ''Math & Physics'')),
           description = content result, color = 0xFEE75C, timestamp = Some stamp,
           footer = RequestedByAnswer author\<rparr>))))"
    by (intro preserves_bind frame_rels offline_utcnow offline_io)
qed

lemma abort_safe_get_answer: "abort_safe get_answer"
  unfolding get_answer_def Let_def
  by (intro abort_safe_offline preserves_struct frame_rels offline_io)

lemma daily_post_failure:
  assumes "api_failed w (snd (daily_post w))"
  shows "history_file (snd (daily_post w)) = history_file w \<and>
     sent (snd (daily_post w)) = sent w \<and>
     (\<exists>e. stdout (snd (daily_post w)) = stdout w @ [ErrorPosting e])"
proof (cases "channel w")
  case False
  with assms show ?thesis by (auto simp: daily_post_def print_def api_failed_def)
next
  case True
  obtain r w1 where b: "daily_post_body w = (r, w1)" by (cases "daily_post_body w")
  have req: "requests (snd (daily_post w)) = requests w1"
    using True b by (cases r) (simp_all add: daily_post_def print_def)
  with assms have f: "api_failed w w1" by (simp add: api_failed_def)
  with fails_fast_daily_post_body b have "isl r"
    by (auto simp: fails_fast_def dest: spec [of _ w])
  then obtain e where e: "r = Inl e" by (cases r) auto
  from abort_safe_daily_post_body b f have "silent_rel w w1"
    by (auto simp: abort_safe_def dest: spec [of _ w])
  with True b e show ?thesis by (simp add: daily_post_def print_def silent_rel_def)
qed

lemma command_failure:
  assumes "fails_fast m" "abort_safe m" "api_failed w (snd (m w))"
  shows "history_file (snd (m w)) = history_file w \<and> sent (snd (m w)) = sent w \<and> isl (fst (m w))"
  using assms by (simp add: fails_fast_def abort_safe_def silent_rel_def)

text \<open>
  C2: for every invocation, scheduled or on demand, if a call of the model made during
  the invocation raises, the history file is left exactly as it was (no post appended,
  no rotation list changed, the pending answer not modified), nothing is sent, and the
  invocation aborts: the scheduled post prints the error, a command raises.
\<close>

theorem failure_is_atomic:
  "api_failed w (snd (invoke call w)) \<longrightarrow>
     history_file (snd (invoke call w)) = history_file w \<and>
     sent (snd (invoke call w)) = sent w \<and>
     (case call of
        Scheduled \<Rightarrow> \<exists>e. stdout (snd (invoke call w)) = stdout w @ [ErrorPosting e]
      | _ \<Rightarrow> isl (fst (invoke call w)))"
proof (cases call)
  case Scheduled
  with daily_post_failure [of w] show ?thesis by simp
next
  case (FactCommand author t)
  with command_failure [OF fails_fast_get_fact abort_safe_get_fact, of w author t]
  show ?thesis by simp
next
  case (WhatIfCommand author)
  with command_failure [OF fails_fast_get_what_if abort_safe_get_what_if, of w author]
  show ?thesis by simp
next
  case (PuzzleCommand author)
  with command_failure [OF fails_fast_get_puzzle abort_safe_get_puzzle, of w author]
  show ?thesis by simp
next
  case AnswerCommand
  with command_failure [OF fails_fast_get_answer abort_safe_get_answer, of w]
  show ?thesis by simp
qed


lemmas eval_world = world0_def week_history_def empty_history_def days_ago_post_def now0_def

lemmas eval_io = bind_def return_def raise_def utcnow_def random_choice_def random_lt_03_def
  messages_create_def send_def print_def load_history_def save_history_def

lemmas eval_sel = pick_fresh_def get_recent_posts_def get_callback_candidate_def
  build_context_block_def callback_opportunity_def timedelta_days_def last_n_def get_default_def
  Let_def

lemma down_puzzle:
  "requests (snd (get_puzzle (str ''ann'') down_world)) \<noteq> []"
  by (simp add: get_puzzle_def generate_puzzle_def down_world_def TOPICS_def
      eval_world eval_io eval_sel)

lemma down_daily:
  "requests (snd (daily_post down_world)) \<noteq> []"
  by (simp add: daily_post_def daily_post_body_def generate_content_def generate_fact_def
      down_world_def TOPICS_def WONDER_TYPES_def MODE_SCHEDULE_def weekday_def str_def
      eval_world eval_io eval_sel)

theorem failure_is_atomic_witness:
  "api_failed down_world (snd (invoke Scheduled down_world)) \<and>
   history_file (snd (invoke Scheduled down_world)) = Some week_history \<and>
   sent (snd (invoke Scheduled down_world)) = [] \<and>
   api_failed down_world (snd (invoke (PuzzleCommand (str ''ann'')) down_world)) \<and>
   history_file (snd (invoke (PuzzleCommand (str ''ann'')) down_world)) = Some week_history \<and>
   isl (fst (invoke (PuzzleCommand (str ''ann'')) down_world))"
proof -
  have 0: "requests down_world = []" "isl (claude down_world 0)"
    "history_file down_world = Some week_history" "sent down_world = []"
    by (simp_all add: down_world_def world0_def)
  have 1: "api_failed down_world (snd (invoke Scheduled down_world))"
    unfolding api_failed_def using 0 down_daily by (intro exI [of _ 0]) simp
  have 2: "api_failed down_world (snd (invoke (PuzzleCommand (str ''ann'')) down_world))"
    unfolding api_failed_def using 0 down_puzzle by (intro exI [of _ 0]) simp
  from failure_is_atomic [of down_world Scheduled]
    failure_is_atomic [of down_world "PuzzleCommand (str ''ann'')"] 0 1 2
  show ?thesis by simp
qed


section \<open>Generation in a healthy world\<close>

lemma healthy_frame: "healthy w \<Longrightarrow> steady_rel w w' \<Longrightarrow> healthy w'"
  by (simp add: healthy_def rng_ok_def api_up_def steady_rel_def)

lemma succeeds_bind:
  assumes "succeeds m Q" "\<And>a. Q a \<Longrightarrow> succeeds (f a) Q'"
  shows "succeeds (bind m f) Q'"
  unfolding succeeds_def
proof (intro allI impI)
  fix w
  assume h: "healthy w"
  with assms(1) obtain a where a: "fst (m w) = Inr a" "Q a" "healthy (snd (m w))"
    by (auto simp: succeeds_def)
  from assms(2) [OF a(2)] a(3)
  have "(\<exists>b. fst (f a (snd (m w))) = Inr b \<and> Q' b) \<and> healthy (snd (f a (snd (m w))))"
    by (simp add: succeeds_def)
  moreover have "bind m f w = f a (snd (m w))"
    using a(1) by (cases "m w") (simp add: bind_def)
  ultimately show "(\<exists>b. fst (bind m f w) = Inr b \<and> Q' b) \<and> healthy (snd (bind m f w))"
    by simp
qed

lemma succeeds_return: "Q a \<Longrightarrow> succeeds (return a) Q"
  by (simp add: succeeds_def return_def)

lemma succeeds_weaken: "succeeds m Q \<Longrightarrow> (\<And>a. Q a \<Longrightarrow> Q' a) \<Longrightarrow> succeeds m Q'"
  by (auto simp: succeeds_def)

lemma succeeds_utcnow: "succeeds utcnow (\<lambda>_. True)"
  by (simp add: succeeds_def utcnow_def healthy_def rng_ok_def api_up_def)

lemma succeeds_random_lt_03: "succeeds random_lt_03 (\<lambda>_. True)"
  by (simp add: succeeds_def random_lt_03_def healthy_def rng_ok_def api_up_def)

lemma succeeds_random_choice: "xs \<noteq> [] \<Longrightarrow> succeeds (random_choice xs) (\<lambda>x. x \<in> set xs)"
  by (simp add: succeeds_def random_choice_def Let_def healthy_def rng_ok_def api_up_def)

lemma succeeds_messages_create: "succeeds (messages_create m n p) (\<lambda>_. True)"
proof -
  have "\<not> isl x \<Longrightarrow> \<exists>a. x = Inr a" for x :: "error + pystr"
    by (cases x) simp_all
  then show ?thesis
    by (simp add: succeeds_def messages_create_def healthy_def rng_ok_def api_up_def)
qed

lemma succeeds_pick_fresh:
  "options \<noteq> [] \<Longrightarrow> succeeds (pick_fresh options recently_used) (\<lambda>x. x \<in> set options)"
  unfolding pick_fresh_def Let_def
  by (auto intro: succeeds_weaken [OF succeeds_random_choice])

lemma dated_filter: "dated ps \<Longrightarrow> dated (filter P ps)"
  by (simp add: dated_def list_all_iff)

lemma dated_last_n: "dated ps \<Longrightarrow> dated (last_n n ps)"
  by (auto simp: dated_def list_all_iff last_n_def dest: in_set_dropD)

lemma context_lines_dated: "dated ps \<Longrightarrow> \<exists>ls. context_lines ps = Inr ls"
  by (induction ps) (auto simp: dated_def)

lemma succeeds_get_recent_posts:
  "dated (posts h) \<Longrightarrow> succeeds (get_recent_posts h d) dated"
  by (auto simp: succeeds_def get_recent_posts_dated dated_filter
      intro: healthy_frame simp: steady_rel_def)

lemma succeeds_build_context_block:
  assumes "dated (posts h)"
  shows "succeeds (build_context_block h) (\<lambda>_. True)"
  unfolding build_context_block_def
proof (rule succeeds_bind [OF succeeds_get_recent_posts [OF assms]])
  fix recent
  assume "dated recent"
  then obtain ls where "context_lines (last_n 10 recent) = Inr ls"
    using context_lines_dated [OF dated_last_n] by blast
  then show "succeeds (if recent = [] then return []
      else case context_lines (last_n 10 recent) of Inl e \<Rightarrow> raise e | Inr ls \<Rightarrow> return ls)
      (\<lambda>_. True)"
    by (simp add: succeeds_return)
qed

lemma succeeds_get_callback_candidate:
  assumes "dated (posts h)"
  shows "succeeds (get_callback_candidate h) (\<lambda>c. case c of None \<Rightarrow> True | Some p \<Rightarrow> date p \<noteq> None)"
  unfolding succeeds_def
proof (intro allI impI)
  fix w
  assume h: "healthy w"
  let ?cs = "filter (callback_band (clock w (clock_reads w))) (posts h)"
  let ?Q = "\<lambda>c. case c of None \<Rightarrow> True | Some p \<Rightarrow> date p \<noteq> None"
  show "(\<exists>a. fst (get_callback_candidate h w) = Inr a \<and> ?Q a) \<and>
      healthy (snd (get_callback_candidate h w))"
  proof (cases "length (posts h) < 7")
    case True
    with h show ?thesis by (simp add: get_callback_candidate_few)
  next
    case False
    then have l: "7 \<le> length (posts h)" by simp
    show ?thesis
    proof (cases "?cs = []")
      case True
      have "healthy (w\<lparr>clock_reads := Suc (clock_reads w)\<rparr>)"
        using h by (simp add: healthy_def rng_ok_def api_up_def)
      with get_callback_candidate_none [OF l assms True] show ?thesis by simp
    next
      case False
      from h have r: "rng_ok w" by (simp add: healthy_def)
      let ?i = "randbelow w (rng_calls w) (length ?cs)"
      from get_callback_candidate_some [OF l assms r refl False]
      have i: "?i < length ?cs" and e: "get_callback_candidate h w =
         (Inr (Some (?cs ! ?i)), w\<lparr>clock_reads := Suc (clock_reads w), rng_calls := Suc (rng_calls w)\<rparr>)"
        by simp_all
      from i have "?cs ! ?i \<in> set ?cs" by (rule nth_mem)
      then have "date (?cs ! ?i) \<noteq> None" using assms by (auto simp: dated_def list_all_iff)
      moreover have "healthy (w\<lparr>clock_reads := Suc (clock_reads w), rng_calls := Suc (rng_calls w)\<rparr>)"
        using h by (simp add: healthy_def rng_ok_def api_up_def)
      ultimately show ?thesis using e by simp
    qed
  qed
qed

lemma succeeds_callback_opportunity:
  assumes "dated (posts h)"
  shows "succeeds (callback_opportunity h) (\<lambda>_. True)"
  unfolding callback_opportunity_def
proof (rule succeeds_bind [OF succeeds_random_lt_03])
  fix lt
  show "succeeds (if lt then bind (get_callback_candidate h) (\<lambda>callback.
          case callback of None \<Rightarrow> return (None, None)
          | Some c \<Rightarrow> bind utcnow (\<lambda>now. case date c of
              None \<Rightarrow> raise (KeyError (str ''date''))
            | Some d \<Rightarrow> return (Some c, Some (timedelta_days now d, get_default (summary c) []))))
        else return (None, None)) (\<lambda>_. True)"
  proof (cases lt)
    case False
    then show ?thesis by (simp add: succeeds_return)
  next
    case True
    have "succeeds (bind (get_callback_candidate h) (\<lambda>callback.
          case callback of None \<Rightarrow> return (None, None)
          | Some c \<Rightarrow> bind utcnow (\<lambda>now. case date c of
              None \<Rightarrow> raise (KeyError (str ''date''))
            | Some d \<Rightarrow> return (Some c, Some (timedelta_days now d, get_default (summary c) [])))))
        (\<lambda>_. True)"
    proof (rule succeeds_bind [OF succeeds_get_callback_candidate [OF assms]])
      fix callback :: "post option"
      assume q: "case callback of None \<Rightarrow> True | Some p \<Rightarrow> date p \<noteq> None"
      show "succeeds (case callback of None \<Rightarrow> return (None, None)
          | Some c \<Rightarrow> bind utcnow (\<lambda>now. case date c of
              None \<Rightarrow> raise (KeyError (str ''date''))
            | Some d \<Rightarrow> return (Some c, Some (timedelta_days now d, get_default (summary c) []))))
          (\<lambda>_. True)"
      proof (cases callback)
        case None
        then show ?thesis by (simp add: succeeds_return)
      next
        case (Some c)
        with q obtain d where "date c = Some d" by auto
        with Some show ?thesis
          by (auto intro!: succeeds_bind [OF succeeds_utcnow] succeeds_return)
      qed
    qed
    with True show ?thesis by simp
  qed
qed

lemma succeeds_generate_summary: "succeeds (generate_summary c) (\<lambda>_. True)"
  unfolding generate_summary_def
  by (intro succeeds_bind [OF succeeds_messages_create] succeeds_return TrueI)

lemma TOPICS_nonempty: "TOPICS \<noteq> []"
  by (simp add: TOPICS_def)

lemma WONDER_TYPES_nonempty: "WONDER_TYPES \<noteq> []"
  by (simp add: WONDER_TYPES_def)

lemma succeeds_generate_fact:
  assumes "dated (posts h)"
  shows "succeeds (generate_fact h)
     (\<lambda>p. mode p = Some (str ''fact'') \<and> topic p \<in> Some ` set TOPICS \<and>
          wonder_type p \<in> Some ` set WONDER_TYPES)"
  unfolding generate_fact_def
proof (rule succeeds_bind [OF succeeds_pick_fresh [OF TOPICS_nonempty]],
    rule succeeds_bind [OF succeeds_pick_fresh [OF WONDER_TYPES_nonempty]],
    rule succeeds_bind [OF succeeds_build_context_block [OF assms]],
    rule succeeds_bind [OF succeeds_callback_opportunity [OF assms]])
  fix topic' wonder :: pystr and ctx :: "context_line list"
    and cb :: "post option \<times> (int \<times> pystr) option"
  assume m: "topic' \<in> set TOPICS" "wonder \<in> set WONDER_TYPES"
  obtain callback callback_text where cb: "cb = (callback, callback_text)" by (cases cb)
  show "succeeds (case cb of (callback, callback_text) \<Rightarrow>
      bind (messages_create Sonnet 1024 (FactPrompt ctx topic' wonder callback_text))
        (\<lambda>content'. bind (generate_summary content') (\<lambda>summary'.
           return \<lparr>content = content', mode = Some (str ''fact''), topic = Some topic',
             wonder_type = Some wonder, summary = Some summary',
             had_callback = Some (callback \<noteq> None), answer = None, date = None\<rparr>)))
     (\<lambda>p. mode p = Some (str ''fact'') \<and> topic p \<in> Some ` set TOPICS \<and>
          wonder_type p \<in> Some ` set WONDER_TYPES)"
    unfolding cb prod.case
    by (intro succeeds_bind [OF succeeds_messages_create]
        succeeds_bind [OF succeeds_generate_summary] succeeds_return) (simp add: m)
qed

lemma generate_connections_few:
  assumes "dated (posts h)"
    "length (filter (age_at_most (clock w (clock_reads w)) 7) (posts h)) < 3"
  shows "generate_connections h w =
     generate_fact h (if posts h = [] then w else w\<lparr>clock_reads := Suc (clock_reads w)\<rparr>)"
  using assms(2) by (simp add: generate_connections_def bind_def get_recent_posts_dated [OF assms(1)])

text \<open>
  C6: for every history, of dated posts, with fewer than 3 posts whose whole-day age is
  at most 7, the connections generator is the fact generator, run after the one reading
  of the clock; in a healthy world it returns a post whose mode is fact, not connections,
  with a topic of \<open>TOPICS\<close> and a wonder type of \<open>WONDER_TYPES\<close>.
\<close>

theorem connections_degrade:
  "dated (posts h) \<and>
   length (filter (age_at_most (clock w (clock_reads w)) 7) (posts h)) < 3 \<longrightarrow>
     generate_connections h w =
       generate_fact h (if posts h = [] then w else w\<lparr>clock_reads := Suc (clock_reads w)\<rparr>) \<and>
     (healthy w \<longrightarrow>
        (\<exists>p. fst (generate_connections h w) = Inr p \<and> mode p = Some (str ''fact'') \<and>
             mode p \<noteq> Some (str ''connections'') \<and>
             topic p \<in> Some ` set TOPICS \<and> wonder_type p \<in> Some ` set WONDER_TYPES))"
proof (intro impI, elim conjE)
  assume a: "dated (posts h)"
    "length (filter (age_at_most (clock w (clock_reads w)) 7) (posts h)) < 3"
  let ?w = "if posts h = [] then w else w\<lparr>clock_reads := Suc (clock_reads w)\<rparr>"
  have e: "generate_connections h w = generate_fact h ?w"
    using a by (rule generate_connections_few)
  have "\<exists>p. fst (generate_connections h w) = Inr p \<and> mode p = Some (str ''fact'') \<and>
             mode p \<noteq> Some (str ''connections'') \<and>
             topic p \<in> Some ` set TOPICS \<and> wonder_type p \<in> Some ` set WONDER_TYPES"
    if h: "healthy w"
  proof -
    from h have "healthy ?w" by (simp add: healthy_def rng_ok_def api_up_def)
    with succeeds_generate_fact [OF a(1)] obtain p where
      p: "fst (generate_fact h ?w) = Inr p" "mode p = Some (str ''fact'')"
        "topic p \<in> Some ` set TOPICS" "wonder_type p \<in> Some ` set WONDER_TYPES"
      unfolding succeeds_def by blast
    have "str ''fact'' \<noteq> str ''connections''" by (simp add: str_def)
    with p e show ?thesis by simp
  qed
  with e show "generate_connections h w = generate_fact h ?w \<and>
     (healthy w \<longrightarrow>
        (\<exists>p. fst (generate_connections h w) = Inr p \<and> mode p = Some (str ''fact'') \<and>
             mode p \<noteq> Some (str ''connections'') \<and>
             topic p \<in> Some ` set TOPICS \<and> wonder_type p \<in> Some ` set WONDER_TYPES))"
    by blast
qed

theorem connections_degrade_witness:
  "dated (posts week_history) \<and> healthy world0 \<and>
   length (filter (age_at_most (clock world0 (clock_reads world0)) 7) (posts week_history)) = 2 \<and>
   (\<exists>p. fst (generate_connections week_history world0) = Inr p \<and> mode p = Some (str ''fact''))"
proof -
  have d: "dated (posts week_history)"
    by (simp add: week_history_def dated_def days_ago_post_def)
  have h: "healthy world0"
    by (simp add: healthy_def rng_ok_def api_up_def world0_def)
  have l: "length (filter (age_at_most (clock world0 (clock_reads world0)) 7) (posts week_history)) = 2"
    by (simp add: week_history_def world0_def age_at_most_def days_ago_post_def now0_def
        timedelta_days_def)
  from connections_degrade [of week_history world0] d h l show ?thesis by auto
qed


section \<open>Parsing the puzzle\<close>

lemma find_str_Some:
  "find_str s sub = Some i \<Longrightarrow>
     s = take i s @ sub @ drop (i + length sub) s \<and> i + length sub \<le> length s"
proof (induction s arbitrary: i)
  case Nil
  then show ?case by (simp split: if_splits)
next
  case (Cons c cs)
  show ?case
  proof (cases "prefix sub (c # cs)")
    case True
    then obtain r where r: "c # cs = sub @ r" by (auto simp: prefix_def)
    from True Cons.prems have "i = 0" by simp
    with r show ?thesis by simp
  next
    case False
    with Cons.prems obtain j where j: "find_str cs sub = Some j" "i = Suc j" by auto
    from Cons.IH [OF j(1)] j(2) show ?thesis by simp
  qed
qed

lemma find_str_least:
  "find_str s sub = Some i \<Longrightarrow> s = a @ sub @ b \<Longrightarrow> i \<le> length a"
proof (induction s arbitrary: i a)
  case Nil
  then show ?case by (simp split: if_splits)
next
  case (Cons c cs)
  show ?case
  proof (cases "prefix sub (c # cs)")
    case True
    with Cons.prems(1) have "i = 0" by simp
    then show ?thesis by simp
  next
    case False
    with Cons.prems(1) obtain j where j: "find_str cs sub = Some j" "i = Suc j" by auto
    from False Cons.prems(2) have "a \<noteq> []" by (auto simp: prefix_def)
    then obtain a' where a': "a = c # a'" using Cons.prems(2) by (cases a) auto
    with Cons.prems(2) have "cs = a' @ sub @ b" by simp
    from Cons.IH [OF j(1) this] j(2) a' show ?thesis by simp
  qed
qed

lemma find_str_None: "find_str s sub = None \<Longrightarrow> s \<noteq> a @ sub @ b"
proof (induction s arbitrary: a)
  case Nil
  then show ?case by (auto split: if_splits)
next
  case (Cons c cs)
  from Cons.prems have np: "\<not> prefix sub (c # cs)" and n: "find_str cs sub = None"
    by (auto split: if_splits)
  show ?case
  proof
    assume e: "c # cs = a @ sub @ b"
    show False
    proof (cases a)
      case Nil
      with e np show False by (auto simp: prefix_def)
    next
      case (Cons x a')
      with e have "cs = a' @ sub @ b" by simp
      with Cons.IH [OF n] show False by blast
    qed
  qed
qed

lemma find_str_first:
  assumes "s = a @ sub @ b" "\<forall>a' b'. s = a' @ sub @ b' \<longrightarrow> length a \<le> length a'"
  shows "find_str s sub = Some (length a)"
proof (cases "find_str s sub")
  case None
  from find_str_None [OF None] assms(1) show ?thesis by blast
next
  case (Some i)
  from find_str_least [OF Some assms(1)] have 1: "i \<le> length a" .
  from find_str_Some [OF Some] assms(2) have "length a \<le> length (take i s)" by blast
  with 1 Some show ?thesis by simp
qed

lemma parse_puzzle_marker:
  assumes "raw = a @ str ''ANSWER:'' @ b"
    "\<forall>a' b'. raw = a' @ str ''ANSWER:'' @ b' \<longrightarrow> length a \<le> length a'"
  shows "parse_puzzle raw = Inr (strip a, strip b)"
proof -
  have "find_str raw (str ''ANSWER:'') = Some (length a)"
    using assms by (rule find_str_first)
  then show ?thesis using assms(1)
    by (simp add: parse_puzzle_def contains_def split_1_def)
qed

lemma parse_puzzle_no_marker:
  assumes "\<forall>a b. raw \<noteq> a @ str ''ANSWER:'' @ b"
  shows "parse_puzzle raw = Inr (raw, str ''(Answer coming tomorrow)'')"
proof -
  have "find_str raw (str ''ANSWER:'') = None"
  proof (cases "find_str raw (str ''ANSWER:'')")
    case (Some i)
    from find_str_Some [OF Some] assms show ?thesis by blast
  qed simp
  then show ?thesis by (simp add: parse_puzzle_def contains_def)
qed

lemma bind_Inr:
  assumes "bind m f w = (Inr b, w')"
  obtains a w1 where "m w = (Inr a, w1)" "f a w1 = (Inr b, w')"
  using assms by (cases "m w") (auto simp: bind_def split: sum.splits)

lemma generate_puzzle_parsed:
  assumes "generate_puzzle h w = (Inr p, w')"
  shows "\<exists>full ans. claude w (length (requests w)) = Inr full \<and>
     parse_puzzle full = Inr (content p, ans) \<and> answer p = Some ans \<and>
     mode p = Some (str ''puzzle'')"
proof -
  from assms [unfolded generate_puzzle_def]
  obtain topic' w1 where 1: "pick_fresh TOPICS (used_topics h) w = (Inr topic', w1)"
    and r1: "bind (build_context_block h) (\<lambda>ctx.
       bind (messages_create Sonnet 1024 (PuzzlePrompt ctx topic')) (\<lambda>full_response.
       bind (case parse_puzzle full_response of Inl e \<Rightarrow> raise e | Inr parsed \<Rightarrow> return parsed)
         (\<lambda>(puzzle, answer').
       bind (generate_summary puzzle) (\<lambda>summary'.
       return \<lparr>content = puzzle, mode = Some (str ''puzzle''), topic = Some topic',
         wonder_type = None, summary = Some summary', had_callback = None,
         answer = Some answer', date = None\<rparr>)))) w1 = (Inr p, w')"
    by (rule bind_Inr)
  from r1 obtain ctx w2 where 2: "build_context_block h w1 = (Inr ctx, w2)"
    and r2: "bind (messages_create Sonnet 1024 (PuzzlePrompt ctx topic')) (\<lambda>full_response.
       bind (case parse_puzzle full_response of Inl e \<Rightarrow> raise e | Inr parsed \<Rightarrow> return parsed)
         (\<lambda>(puzzle, answer').
       bind (generate_summary puzzle) (\<lambda>summary'.
       return \<lparr>content = puzzle, mode = Some (str ''puzzle''), topic = Some topic',
         wonder_type = None, summary = Some summary', had_callback = None,
         answer = Some answer', date = None\<rparr>))) w2 = (Inr p, w')"
    by (rule bind_Inr)
  from r2 obtain full w3 where 3: "messages_create Sonnet 1024 (PuzzlePrompt ctx topic') w2 = (Inr full, w3)"
    and r3: "bind (case parse_puzzle full of Inl e \<Rightarrow> raise e | Inr parsed \<Rightarrow> return parsed)
         (\<lambda>(puzzle, answer').
       bind (generate_summary puzzle) (\<lambda>summary'.
       return \<lparr>content = puzzle, mode = Some (str ''puzzle''), topic = Some topic',
         wonder_type = None, summary = Some summary', had_callback = None,
         answer = Some answer', date = None\<rparr>)) w3 = (Inr p, w')"
    by (rule bind_Inr)
  from r3 obtain parsed w4 where
    4: "(case parse_puzzle full of Inl e \<Rightarrow> raise e | Inr parsed \<Rightarrow> return parsed) w3 = (Inr parsed, w4)"
    and r4: "(case parsed of (puzzle, answer') \<Rightarrow>
       bind (generate_summary puzzle) (\<lambda>summary'.
       return \<lparr>content = puzzle, mode = Some (str ''puzzle''), topic = Some topic',
         wonder_type = None, summary = Some summary', had_callback = None,
         answer = Some answer', date = None\<rparr>)) w4 = (Inr p, w')"
    by (rule bind_Inr)
  obtain puzzle ans where pa: "parsed = (puzzle, ans)" by (cases parsed)
  from 4 pa have parse: "parse_puzzle full = Inr (puzzle, ans)"
    by (cases "parse_puzzle full") (simp_all add: raise_def return_def)
  from r4 pa obtain summary' w5 where
    "return \<lparr>content = puzzle, mode = Some (str ''puzzle''), topic = Some topic',
         wonder_type = None, summary = Some summary', had_callback = None,
         answer = Some ans, date = None\<rparr> w5 = (Inr p, w')"
    by (auto elim: bind_Inr)
  then have p: "content p = puzzle" "answer p = Some ans" "mode p = Some (str ''puzzle'')"
    by (auto simp: return_def)
  have "steady_rel w w1" "offline_rel w w1"
    using preservesD [OF preserves_pick_fresh_str [OF sel_frames(1)], of w TOPICS "used_topics h"]
      preservesD [OF preserves_pick_fresh_str [OF sel_frames(3)], of w TOPICS "used_topics h"] 1
    by simp_all
  moreover have "steady_rel w1 w2" "offline_rel w1 w2"
    using preservesD [OF preserves_build_context_block [OF sel_frames(1)], of w1 h]
      preservesD [OF preserves_build_context_block [OF sel_frames(3)], of w1 h] 2
    by simp_all
  ultimately have "claude w2 = claude w" "requests w2 = requests w"
    by (simp_all add: steady_rel_def offline_rel_def)
  with 3 have "claude w (length (requests w)) = Inr full"
    by (simp add: messages_create_def)
  with parse p show ?thesis by blast
qed

text \<open>
  C7: for every raw response, if the marker \<open>ANSWER:\<close> occurs in it, the parsed content
  is the stripped text before the first occurrence and the parsed answer the stripped
  text after it; if it does not occur, the content is the whole response and the answer
  the placeholder.  The content and the answer of a post that \<open>generate_puzzle\<close> returns
  are those parsed from the response of its first call of the model.
\<close>

theorem puzzle_parsing:
  "(raw = a @ str ''ANSWER:'' @ b \<and>
      (\<forall>a' b'. raw = a' @ str ''ANSWER:'' @ b' \<longrightarrow> length a \<le> length a') \<longrightarrow>
      parse_puzzle raw = Inr (strip a, strip b)) \<and>
   ((\<forall>a b. raw \<noteq> a @ str ''ANSWER:'' @ b) \<longrightarrow>
      parse_puzzle raw = Inr (raw, str ''(Answer coming tomorrow)'')) \<and>
   (generate_puzzle h w = (Inr p, w') \<longrightarrow>
      (\<exists>full ans. claude w (length (requests w)) = Inr full \<and>
         parse_puzzle full = Inr (content p, ans) \<and> answer p = Some ans \<and>
         mode p = Some (str ''puzzle'')))"
  using parse_puzzle_marker [of raw a b] parse_puzzle_no_marker [of raw]
    generate_puzzle_parsed [of h w p w']
  by blast

lemma find_puzzle_raw: "find_str puzzle_raw (str ''ANSWER:'') = Some 14"
  by (simp add: puzzle_raw_def str_def)

lemma find_no_marker: "find_str (str ''Why is the sky dark?'') (str ''ANSWER:'') = None"
  by (simp add: str_def)

theorem puzzle_parsing_witness:
  "parse_puzzle puzzle_raw = Inr (str ''Puzzle text.'', str ''42'') \<and>
   parse_puzzle (str ''Why is the sky dark?'') =
     Inr (str ''Why is the sky dark?'', str ''(Answer coming tomorrow)'') \<and>
   map_sum id (\<lambda>p. (content p, answer p)) (fst (generate_puzzle week_history puzzle_world)) =
     Inr (str ''Puzzle text.'', Some (str ''42''))"
proof -
  let ?a = "str ''Puzzle text.'' @ [10, 10]" and ?b = "str '' 42''"
  have e: "puzzle_raw = ?a @ str ''ANSWER:'' @ ?b"
    by (simp add: puzzle_raw_def str_def)
  have la: "length ?a = 14" by (simp add: str_def)
  have m: "\<forall>a' b'. puzzle_raw = a' @ str ''ANSWER:'' @ b' \<longrightarrow> length ?a \<le> length a'"
  proof (intro allI impI)
    fix a' b'
    assume "puzzle_raw = a' @ str ''ANSWER:'' @ b'"
    from find_str_least [OF find_puzzle_raw this] show "length ?a \<le> length a'"
      unfolding la .
  qed
  have s: "strip ?a = str ''Puzzle text.''" "strip ?b = str ''42''"
    by (simp_all add: strip_def isspace_def str_def)
  have n: "\<forall>a b. str ''Why is the sky dark?'' \<noteq> a @ str ''ANSWER:'' @ b"
    using find_str_None [OF find_no_marker] by blast
  obtain p w' where g: "generate_puzzle week_history puzzle_world = (Inr p, w')"
    by (simp add: generate_puzzle_def puzzle_world_def TOPICS_def generate_summary_def
        parse_puzzle_def contains_def split_1_def puzzle_raw_def str_def
        eval_world eval_io eval_sel)
  have c: "claude puzzle_world (length (requests puzzle_world)) = Inr puzzle_raw"
    by (simp add: puzzle_world_def world0_def)
  from puzzle_parsing [of puzzle_raw ?a ?b week_history puzzle_world p w'] e m s g c
  have 1: "parse_puzzle puzzle_raw = Inr (str ''Puzzle text.'', str ''42'')"
    and 3: "content p = str ''Puzzle text.''" "answer p = Some (str ''42'')"
    by auto
  from puzzle_parsing [of "str ''Why is the sky dark?''"] n
  have 2: "parse_puzzle (str ''Why is the sky dark?'') =
     Inr (str ''Why is the sky dark?'', str ''(Answer coming tomorrow)'')"
    by blast
  from 1 2 3 g show ?thesis by simp
qed


section \<open>The manual puzzle and its answer\<close>

lemma file_blind_bind:
  assumes "file_blind m" "\<And>a. file_blind (f a)"
  shows "file_blind (bind m f)"
  unfolding file_blind_def
proof (intro allI)
  fix w x
  obtain r w1 where m: "m w = (r, w1)" by (cases "m w")
  with assms(1) have m': "m (w\<lparr>history_file := x\<rparr>) = (r, w1\<lparr>history_file := x\<rparr>)"
    by (simp add: file_blind_def)
  show "bind m f (w\<lparr>history_file := x\<rparr>) = (fst (bind m f w), (snd (bind m f w))\<lparr>history_file := x\<rparr>)"
  proof (cases r)
    case (Inl e)
    with m m' show ?thesis by (simp add: bind_def)
  next
    case (Inr a)
    with m m' assms(2) [of a] show ?thesis by (simp add: bind_def file_blind_def)
  qed
qed

lemma file_blind_return: "file_blind (return a)"
  by (simp add: file_blind_def return_def)

lemma file_blind_raise: "file_blind (raise e)"
  by (simp add: file_blind_def raise_def)

lemma file_blind_if: "file_blind a \<Longrightarrow> file_blind b \<Longrightarrow> file_blind (if c then a else b)"
  by simp

lemma file_blind_sum:
  "(\<And>x. file_blind (a x)) \<Longrightarrow> (\<And>x. file_blind (b x)) \<Longrightarrow>
   file_blind (case v of Inl x \<Rightarrow> a x | Inr x \<Rightarrow> b x)"
  by (cases v) simp_all

lemma file_blind_prod:
  "(\<And>x y. file_blind (f x y)) \<Longrightarrow> file_blind (case v of (x, y) \<Rightarrow> f x y)"
  by (cases v) simp_all

lemma file_blind_prims:
  "file_blind utcnow" "file_blind (random_choice xs)" "file_blind (messages_create m n p)"
  "file_blind (send msg)"
  by (simp_all add: file_blind_def utcnow_def random_choice_def messages_create_def send_def
      Let_def split: option.splits)

lemmas file_blind_struct = file_blind_bind file_blind_return file_blind_raise file_blind_if
  file_blind_sum file_blind_prod file_blind_prims

lemma file_blind_pick_fresh: "file_blind (pick_fresh options recently_used)"
  by (simp add: pick_fresh_def Let_def file_blind_prims)

lemma file_blind_build_context_block: "file_blind (build_context_block h)"
  unfolding build_context_block_def get_recent_posts_def by (intro file_blind_struct)

lemma file_blind_generate_puzzle: "file_blind (generate_puzzle h)"
  unfolding generate_puzzle_def generate_summary_def
  by (intro file_blind_struct file_blind_pick_fresh file_blind_build_context_block)

lemma generate_puzzle_pending:
  "generate_puzzle (h\<lparr>pending_puzzle_answer := x\<rparr>) = generate_puzzle h"
  by (simp add: generate_puzzle_def build_context_block_def get_recent_posts_def)

lemma get_puzzle_unfold:
  "get_puzzle author w =
     (case generate_puzzle (loaded w) w of
        (Inl e, w1) \<Rightarrow> (Inl e, w1)
      | (Inr result, w1) \<Rightarrow>
          send (puzzle_embed author result (clock w1 (clock_reads w1)))
            (w1\<lparr>clock_reads := Suc (clock_reads w1),
                history_file := Some ((loaded w)\<lparr>temp_answer :=
                  Some (get_default (answer result) (str ''No answer available''))\<rparr>)\<rparr>))"
  by (simp add: get_puzzle_def bind_def load_history_def loaded_def utcnow_def save_history_def
      puzzle_embed_def Let_def split: option.splits prod.splits sum.splits)

lemma get_answer_unfold: "get_answer w = send (answer_embed (loaded w)) w"
  by (simp add: get_answer_def bind_def load_history_def loaded_def answer_embed_def Let_def
      split: option.splits)

lemma send_file: "history_file (snd (send msg w)) = history_file w"
  by (simp add: send_def split: option.splits)

lemma send_blind:
  "fst (send msg (w\<lparr>history_file := f\<rparr>)) = fst (send msg w) \<and>
   sent (snd (send msg (w\<lparr>history_file := f\<rparr>))) = sent (snd (send msg w))"
  by (simp add: send_def split: option.splits)

lemma generate_puzzle_file:
  "generate_puzzle h w = (r, w1) \<Longrightarrow> history_file w1 = history_file w"
  using preservesD [OF preserves_generate_puzzle [OF gen_frames(2)], of w h]
  by (simp add: silent_rel_def)

lemma get_puzzle_stores:
  assumes "generate_puzzle (loaded w) w = (Inr p, w1)"
  shows "history_file (snd (get_puzzle author w)) = Some ((loaded w)\<lparr>temp_answer := answer p\<rparr>)"
proof -
  from generate_puzzle_parsed [OF assms] obtain ans where "answer p = Some ans" by blast
  with assms show ?thesis by (simp add: get_puzzle_unfold send_file get_default_def)
qed

lemma get_puzzle_fails:
  assumes "generate_puzzle (loaded w) w = (Inl e, w1)"
  shows "history_file (snd (get_puzzle author w)) = history_file w"
  using assms generate_puzzle_file [OF assms] by (simp add: get_puzzle_unfold)

lemma get_puzzle_pending:
  "pending_puzzle_answer (loaded (snd (get_puzzle author w))) = pending_puzzle_answer (loaded w)"
proof -
  obtain r w1 where g: "generate_puzzle (loaded w) w = (r, w1)"
    by (cases "generate_puzzle (loaded w) w")
  show ?thesis
  proof (cases r)
    case (Inl e)
    with g get_puzzle_fails [of w e w1 author] show ?thesis by (simp add: loaded_def)
  next
    case (Inr p)
    with g get_puzzle_stores [of w p w1 author] show ?thesis by (simp add: loaded_def)
  qed
qed

lemma loaded_with_pending: "loaded (with_pending x w) = (loaded w)\<lparr>pending_puzzle_answer := x\<rparr>"
  by (simp add: with_pending_def loaded_def)

lemma get_puzzle_blind:
  "fst (get_puzzle author (with_pending x w)) = fst (get_puzzle author w) \<and>
   sent (snd (get_puzzle author (with_pending x w))) = sent (snd (get_puzzle author w)) \<and>
   temp_answer (loaded (snd (get_puzzle author (with_pending x w)))) =
     temp_answer (loaded (snd (get_puzzle author w))) \<and>
   pending_puzzle_answer (loaded (snd (get_puzzle author (with_pending x w)))) = x"
proof -
  let ?f = "Some ((loaded w)\<lparr>pending_puzzle_answer := x\<rparr>)"
  obtain r w1 where g: "generate_puzzle (loaded w) w = (r, w1)"
    by (cases "generate_puzzle (loaded w) w")
  have "generate_puzzle (loaded (with_pending x w)) (with_pending x w) =
      generate_puzzle (loaded w) (w\<lparr>history_file := ?f\<rparr>)"
    unfolding loaded_with_pending generate_puzzle_pending by (simp add: with_pending_def)
  also have "\<dots> = (r, w1\<lparr>history_file := ?f\<rparr>)"
    using file_blind_generate_puzzle [of "loaded w"] g by (simp add: file_blind_def)
  finally have g': "generate_puzzle (loaded (with_pending x w)) (with_pending x w) =
      (r, w1\<lparr>history_file := ?f\<rparr>)" .
  have f1: "history_file w1 = history_file w" using g by (rule generate_puzzle_file)
  show ?thesis
  proof (cases r)
    case (Inl e)
    with g g' f1 show ?thesis
      by (simp add: get_puzzle_unfold loaded_def with_pending_def)
  next
    case (Inr p)
    let ?t = "Some (get_default (answer p) (str ''No answer available''))"
    let ?w2 = "w1\<lparr>clock_reads := Suc (clock_reads w1)\<rparr>"
    let ?m = "puzzle_embed author p (clock w1 (clock_reads w1))"
    have a: "get_puzzle author w =
        send ?m (?w2\<lparr>history_file := Some ((loaded w)\<lparr>temp_answer := ?t\<rparr>)\<rparr>)"
      using g Inr by (simp add: get_puzzle_unfold)
    have b: "get_puzzle author (with_pending x w) =
        send ?m (?w2\<lparr>history_file :=
          Some ((loaded w)\<lparr>pending_puzzle_answer := x, temp_answer := ?t\<rparr>)\<rparr>)"
      using g' Inr by (simp add: get_puzzle_unfold loaded_with_pending)
    from send_blind [where msg = ?m and w = ?w2 and f = "Some ((loaded w)\<lparr>temp_answer := ?t\<rparr>)"]
      send_blind [where msg = ?m and w = ?w2
        and f = "Some ((loaded w)\<lparr>pending_puzzle_answer := x, temp_answer := ?t\<rparr>)"]
    show ?thesis
      by (simp add: a b send_file loaded_def)
  qed
qed

lemma get_answer_blind:
  "fst (get_answer (with_pending x w)) = fst (get_answer w) \<and>
   sent (snd (get_answer (with_pending x w))) = sent (snd (get_answer w)) \<and>
   history_file (snd (get_answer w)) = history_file w"
proof -
  have e: "answer_embed (loaded (with_pending x w)) = answer_embed (loaded w)"
    by (simp add: answer_embed_def loaded_with_pending)
  show ?thesis
    unfolding get_answer_unfold e
    using send_blind [where msg = "answer_embed (loaded w)" and w = w
        and f = "Some ((loaded w)\<lparr>pending_puzzle_answer := x\<rparr>)"]
    by (simp add: with_pending_def send_file)
qed

text \<open>
  C9: the manual puzzle command leaves the pending slot of the stored history as it
  was; when its generation returns a post it saves the loaded history with only
  \<open>temp_answer\<close> replaced by the parsed answer, and when the generation raises it saves
  nothing.  The answer command saves nothing and sends the embed made from \<open>temp_answer\<close>.
  Neither reads the pending slot: with any other value \<open>x\<close> in it, the result, the
  messages sent and the manual slot are the same.
\<close>

theorem manual_slot_independent:
  "pending_puzzle_answer (loaded (snd (get_puzzle author w))) = pending_puzzle_answer (loaded w) \<and>
   history_file (snd (get_answer w)) = history_file w \<and>
   (generate_puzzle (loaded w) w = (Inr p, w1) \<longrightarrow>
      history_file (snd (get_puzzle author w)) = Some ((loaded w)\<lparr>temp_answer := answer p\<rparr>)) \<and>
   (generate_puzzle (loaded w) w = (Inl e, w1) \<longrightarrow>
      history_file (snd (get_puzzle author w)) = history_file w) \<and>
   fst (get_puzzle author (with_pending x w)) = fst (get_puzzle author w) \<and>
   sent (snd (get_puzzle author (with_pending x w))) = sent (snd (get_puzzle author w)) \<and>
   temp_answer (loaded (snd (get_puzzle author (with_pending x w)))) =
     temp_answer (loaded (snd (get_puzzle author w))) \<and>
   get_answer w = send (answer_embed (loaded w)) w \<and>
   fst (get_answer (with_pending x w)) = fst (get_answer w) \<and>
   sent (snd (get_answer (with_pending x w))) = sent (snd (get_answer w))"
  using get_puzzle_pending [of author w] get_answer_blind [of x w]
    get_puzzle_stores [of w p w1 author] get_puzzle_fails [of w e w1 author]
    get_puzzle_blind [of author x w] get_answer_unfold [of w]
  by simp

theorem manual_slot_independent_witness:
  "map_option pending_puzzle_answer (history_file (snd (get_puzzle (str ''ann'') daily_world))) =
     Some (Some (str ''daily'')) \<and>
   map_option temp_answer (history_file (snd (get_puzzle (str ''ann'') daily_world))) =
     Some (Some (str ''42'')) \<and>
   map_option temp_answer (history_file (snd (get_puzzle (str ''ann'') down_world))) =
     Some None"
proof -
  have l: "loaded daily_world = week_history\<lparr>pending_puzzle_answer := Some (str ''daily''),
       temp_answer := Some (str ''old'')\<rparr>"
    by (simp add: loaded_def daily_world_def)
  obtain p w1 where g: "generate_puzzle (loaded daily_world) daily_world = (Inr p, w1)"
    and a: "answer p = Some (str ''42'')"
    unfolding l
    by (simp add: generate_puzzle_def daily_world_def puzzle_world_def TOPICS_def
        generate_summary_def parse_puzzle_def contains_def split_1_def puzzle_raw_def str_def
        strip_def isspace_def eval_world eval_io eval_sel)
  obtain e w2 where f: "generate_puzzle (loaded down_world) down_world = (Inl e, w2)"
    by (simp add: loaded_def generate_puzzle_def down_world_def TOPICS_def
        eval_world eval_io eval_sel)
  from manual_slot_independent [of "str ''ann''" daily_world p w1] g a l
  have 1: "history_file (snd (get_puzzle (str ''ann'') daily_world)) =
      Some (week_history\<lparr>pending_puzzle_answer := Some (str ''daily''),
        temp_answer := Some (str ''42'')\<rparr>)"
    by simp
  from manual_slot_independent [of "str ''ann''" down_world _ w2 e] f
  have 2: "history_file (snd (get_puzzle (str ''ann'') down_world)) = Some week_history"
    by (simp add: down_world_def)
  from 1 2 show ?thesis by (simp add: week_history_def empty_history_def)
qed

section \<open>The deferred answer\<close>

lemma generate_content_frame:
  assumes "generate_content m h w = (r, w2)"
  shows "send_error w2 = send_error w" "sent w2 = sent w" "stdout w2 = stdout w"
    "history_file w2 = history_file w"
  using preservesD [OF preserves_generate_content [OF gen_frames(1)], of w m h]
    preservesD [OF preserves_generate_content [OF gen_frames(2)], of w m h] assms
  by (simp_all add: steady_rel_def silent_rel_def)

lemma daily_post_body_success:
  assumes "generate_content (scheduled_mode w) (consumed (loaded w))
      (w\<lparr>clock_reads := Suc (clock_reads w)\<rparr>) = (Inr result, w2)"
    "send_error w (length (sent w)) = None"
  shows "fst (daily_post_body w) = Inr () \<and>
     (\<exists>e. sent (snd (daily_post_body w)) = sent w @ [Embed e] \<and>
          description e = rendered (loaded w) result) \<and>
     (\<exists>h'. history_file (snd (daily_post_body w)) = Some h' \<and>
          posts h' = posts (loaded w) @ [result\<lparr>date := Some (clock w2 (Suc (clock_reads w2)))\<rparr>] \<and>
          pending_puzzle_answer h' = stored_pending (scheduled_mode w) (loaded w) result)"
proof -
  from generate_content_frame [OF assms(1)] assms(2)
  have s: "send_error w2 (length (sent w2)) = None" "sent w2 = sent w"
    by simp_all
  have l: "load_history w = (Inr (loaded w), w)"
    by (simp add: load_history_def loaded_def split: option.splits)
  show ?thesis
    using assms(1) s
    by (cases "pending_puzzle_answer (loaded w)")
      (simp_all add: daily_post_body_def bind_def l utcnow_def Let_def send_def print_def
        return_def add_to_history_eq scheduled_mode_def consumed_def rendered_def
        stored_pending_def posts_append_post pending_append_post)
qed

lemma daily_post_success:
  assumes "channel w" "fst (daily_post_body w) = Inr ()"
  shows "daily_post w = daily_post_body w"
  using assms by (cases "daily_post_body w") (simp add: daily_post_def)

text \<open>
  C1, as amended: on a scheduled invocation whose generation and send succeed, if
  \<open>pending_puzzle_answer\<close> holds a non-empty answer, the embed sent is that answer's reveal
  block followed by the content of the generated post, once, and otherwise the content
  alone; the history saved has the generated post appended and its pending slot holds
  the newly parsed answer when the mode is puzzle and that answer is not empty, and is
  cleared otherwise (an empty slot stays as it was).  So at most one answer is in flight.
\<close>

theorem deferred_answer:
  "channel w \<and>
   generate_content (scheduled_mode w) (consumed (loaded w))
     (w\<lparr>clock_reads := Suc (clock_reads w)\<rparr>) = (Inr result, w2) \<and>
   send_error w (length (sent w)) = None \<longrightarrow>
     (\<exists>e h'. sent (snd (daily_post w)) = sent w @ [Embed e] \<and>
        description e = rendered (loaded w) result \<and>
        history_file (snd (daily_post w)) = Some h' \<and>
        posts h' = posts (loaded w) @ [result\<lparr>date := Some (clock w2 (Suc (clock_reads w2)))\<rparr>] \<and>
        pending_puzzle_answer h' = stored_pending (scheduled_mode w) (loaded w) result)"
proof (intro impI, elim conjE)
  assume a: "channel w"
    "generate_content (scheduled_mode w) (consumed (loaded w))
       (w\<lparr>clock_reads := Suc (clock_reads w)\<rparr>) = (Inr result, w2)"
    "send_error w (length (sent w)) = None"
  from daily_post_body_success [OF a(2) a(3)] daily_post_success [OF a(1)]
  show "\<exists>e h'. sent (snd (daily_post w)) = sent w @ [Embed e] \<and>
        description e = rendered (loaded w) result \<and>
        history_file (snd (daily_post w)) = Some h' \<and>
        posts h' = posts (loaded w) @ [result\<lparr>date := Some (clock w2 (Suc (clock_reads w2)))\<rparr>] \<and>
        pending_puzzle_answer h' = stored_pending (scheduled_mode w) (loaded w) result"
    by auto
qed

lemma friday_mode:
  "scheduled_mode friday_world = str ''puzzle''"
  "scheduled_mode friday_puzzle_world = str ''puzzle''"
  by (simp_all add: scheduled_mode_def friday_puzzle_world_def friday_world_def world0_def
      now0_def weekday_def MODE_SCHEDULE_def get_default_def)

lemma friday_loaded:
  "loaded friday_world = week_history\<lparr>pending_puzzle_answer := Some (str ''daily'')\<rparr>"
  "loaded friday_puzzle_world = week_history\<lparr>pending_puzzle_answer := Some (str ''daily'')\<rparr>"
  by (simp_all add: loaded_def friday_puzzle_world_def friday_world_def)

lemma friday_consumed:
  "consumed (week_history\<lparr>pending_puzzle_answer := Some (str ''daily'')\<rparr>) = week_history"
  by (simp add: consumed_def week_history_def empty_history_def str_def)

lemma puzzle_mode: "generate_content (str ''puzzle'') h = generate_puzzle h"
  by (simp add: generate_content_def str_def)

theorem deferred_answer_witness:
  "\<exists>e. sent (snd (daily_post friday_puzzle_world)) = [Embed e] \<and>
      description e = reveal (str ''daily'') (str ''Puzzle text.'') \<and>
      map_option pending_puzzle_answer (history_file (snd (daily_post friday_puzzle_world))) =
        Some (Some (str ''42''))"
proof -
  let ?w = "friday_puzzle_world"
  obtain result w2 where g: "generate_puzzle week_history (?w\<lparr>clock_reads := Suc (clock_reads ?w)\<rparr>) =
      (Inr result, w2)" and r: "content result = str ''Puzzle text.''" "answer result = Some (str ''42'')"
    by (simp add: generate_puzzle_def friday_puzzle_world_def friday_world_def TOPICS_def
        generate_summary_def parse_puzzle_def contains_def split_1_def puzzle_raw_def str_def
        strip_def isspace_def eval_world eval_io eval_sel)
  have c: "channel ?w" "send_error ?w (length (sent ?w)) = None" "sent ?w = []"
    by (simp_all add: friday_puzzle_world_def friday_world_def world0_def)
  have g': "generate_content (scheduled_mode ?w) (consumed (loaded ?w))
      (?w\<lparr>clock_reads := Suc (clock_reads ?w)\<rparr>) = (Inr result, w2)"
    using g by (simp add: friday_mode friday_loaded friday_consumed puzzle_mode)
  have d: "rendered (loaded ?w) result = reveal (str ''daily'') (str ''Puzzle text.'')"
    by (simp add: rendered_def friday_loaded r str_def)
  have s: "stored_pending (scheduled_mode ?w) (loaded ?w) result = Some (str ''42'')"
    by (simp add: stored_pending_def friday_mode r str_def)
  from deferred_answer [of ?w result w2] c g' d s show ?thesis by auto
qed

text \<open>
  On a Friday the model answers \<open>Riddle. ANSWER:\<close>: the mode is puzzle, the parsed answer
  is the empty text, the post is appended, and the pending slot holds nothing.
\<close>

theorem deferred_answer_counterexample:
  "scheduled_mode friday_world = str ''puzzle'' \<and>
   parse_puzzle (str ''Riddle. ANSWER:'') = Inr (str ''Riddle.'', []) \<and>
   map_option (length \<circ> posts) (history_file (snd (daily_post friday_world))) = Some 4 \<and>
   map_option pending_puzzle_answer (history_file (snd (daily_post friday_world))) = Some None"
proof -
  let ?w = "friday_world"
  have p: "parse_puzzle (str ''Riddle. ANSWER:'') = Inr (str ''Riddle.'', [])"
    by (simp add: parse_puzzle_def contains_def split_1_def str_def strip_def isspace_def)
  obtain result w2 where g: "generate_puzzle week_history (?w\<lparr>clock_reads := Suc (clock_reads ?w)\<rparr>) =
      (Inr result, w2)" and r: "answer result = Some []"
    by (simp add: generate_puzzle_def friday_world_def TOPICS_def
        generate_summary_def parse_puzzle_def contains_def split_1_def str_def
        strip_def isspace_def eval_world eval_io eval_sel)
  have c: "channel ?w" "send_error ?w (length (sent ?w)) = None"
    by (simp_all add: friday_world_def world0_def)
  have g': "generate_content (scheduled_mode ?w) (consumed (loaded ?w))
      (?w\<lparr>clock_reads := Suc (clock_reads ?w)\<rparr>) = (Inr result, w2)"
    using g by (simp add: friday_mode friday_loaded friday_consumed puzzle_mode)
  have s: "stored_pending (scheduled_mode ?w) (loaded ?w) result = None"
    by (simp add: stored_pending_def friday_mode friday_loaded r str_def)
  have l: "length (posts (loaded ?w)) = 3"
    by (simp add: friday_loaded week_history_def)
  from daily_post_body_success [OF g' c(2)] daily_post_success [OF c(1)] s l
  have "map_option (length \<circ> posts) (history_file (snd (daily_post ?w))) = Some 4 \<and>
   map_option pending_puzzle_answer (history_file (snd (daily_post ?w))) = Some None"
    by auto
  with friday_mode(1) p show ?thesis by simp
qed

end
